theory Spec2Isabelle
  imports Complex_Main "HOL-Library.AList" "HOL-Library.Sublist"
begin

section \<open>Python values and exceptions\<close>

text \<open>
  The two modules under verification, \<^verbatim>\<open>core/create.py\<close> and \<^verbatim>\<open>core/ingest.py\<close>,
  work on values produced by \<^verbatim>\<open>json.load\<close> and on path strings. A parsed JSON document
  is a tree of \<^verbatim>\<open>None\<close>, booleans, numbers, strings, lists and dictionaries. A dictionary
  is an association list in insertion order; \<^verbatim>\<open>json.load\<close> yields distinct keys. The code
  never inspects a number, so the payload of the two number constructors is opaque here.
  A string is a list of characters; outside ASCII a character of the model is one byte of
  the UTF-8 encoding, which matters only for the length of such a string.
\<close>

datatype json =
    JNull
  | JBool bool
  | JInt int
  | JFloat rat
  | JStr string
  | JArr "json list"
  | JObj "(string \<times> json) list"

text \<open>
  Every exception that the modelled code raises itself, or lets through from a
  collaborator, is a value. \<open>BackendError\<close> stands for any exception class of a
  collaborator that the code under verification does not name.
\<close>

datatype error =
    TypeError
  | KeyError
  | AttributeError
  | ValueError string
  | JSONDecodeError
  | FileNotFoundError string
  | IndexError
  | OSError
  | BackendError string

text \<open>\<^verbatim>\<open>isinstance(x, dict)\<close> and \<^verbatim>\<open>isinstance(x, list)\<close>.\<close>

fun isinstance_dict :: "json \<Rightarrow> bool" where
  "isinstance_dict (JObj kvs) = True"
| "isinstance_dict _ = False"

fun isinstance_list :: "json \<Rightarrow> bool" where
  "isinstance_list (JArr xs) = True"
| "isinstance_list _ = False"

text \<open>
  \<^verbatim>\<open>key in d\<close> for a dictionary \<open>d\<close>. Every use in the source is guarded by
  \<^verbatim>\<open>isinstance(d, dict)\<close>, so the other cases are never evaluated.
\<close>

fun contains_key :: "string \<Rightarrow> json \<Rightarrow> bool" where
  "contains_key k (JObj kvs) = (k \<in> set (map fst kvs))"
| "contains_key k _ = False"

text \<open>
  \<^verbatim>\<open>len(x)\<close>: defined on lists, strings and dictionaries, \<^verbatim>\<open>TypeError\<close> on the
  other JSON values.
\<close>

fun py_len :: "json \<Rightarrow> error + int" where
  "py_len (JArr xs) = Inr (int (length xs))"
| "py_len (JStr s) = Inr (int (length s))"
| "py_len (JObj kvs) = Inr (int (length kvs))"
| "py_len _ = Inl TypeError"

text \<open>
  \<^verbatim>\<open>for x in v\<close>: a list yields its elements, a string its characters (each a
  one-character string), a dictionary its keys; the other JSON values are not iterable.
\<close>

fun py_iter :: "json \<Rightarrow> error + json list" where
  "py_iter (JArr xs) = Inr xs"
| "py_iter (JStr s) = Inr (map (\<lambda>c. JStr [c]) s)"
| "py_iter (JObj kvs) = Inr (map (\<lambda>kv. JStr (fst kv)) kvs)"
| "py_iter _ = Inl TypeError"

text \<open>
  The slice \<^verbatim>\<open>xs[:m]\<close> of a Python sequence: the first \<open>m\<close> elements for \<open>m \<ge> 0\<close>,
  all but the last \<open>-m\<close> elements for \<open>m < 0\<close>.
\<close>

definition slice_to :: "int \<Rightarrow> 'a list \<Rightarrow> 'a list" where
  "slice_to m xs = (if 0 \<le> m then take (nat m) xs else take (nat (int (length xs) + m)) xs)"

text \<open>
  \<^verbatim>\<open>v[:m]\<close> on a JSON value: lists and strings are sliced; a dictionary rejects a slice
  as a key (\<^verbatim>\<open>TypeError\<close>, \<^verbatim>\<open>KeyError\<close> from Python 3.12 on), and the scalar values
  are not subscriptable.
\<close>

fun py_slice_to :: "int \<Rightarrow> json \<Rightarrow> error + json" where
  "py_slice_to m (JArr xs) = Inr (JArr (slice_to m xs))"
| "py_slice_to m (JStr s) = Inr (JStr (slice_to m s))"
| "py_slice_to m _ = Inl TypeError"

section \<open>The chain-of-thought enhancement loop (\<^verbatim>\<open>create.py\<close>, lines 262 to 297)\<close>

text \<open>
  \<^verbatim>\<open>generator.enhance_with_cot\<close> belongs to \<^verbatim>\<open>COTGenerator\<close>, a collaborator that calls
  a language model. It is a parameter \<open>enh\<close> of the model: from the generator's state and
  the message list it either raises or returns some Python value and a new state.
\<close>

type_synonym 'g enhancer = "'g \<Rightarrow> json list \<Rightarrow> error + (json \<times> 'g)"

text \<open>
  Lines 284 to 289: a non-empty list whose first element is a list is replaced by that
  first element; every other value is kept as it is.
\<close>

fun unwrap_nested :: "json \<Rightarrow> json" where
  "unwrap_nested (JArr (JArr inner # rest)) = JArr inner"
| "unwrap_nested enhanced_messages = enhanced_messages"

text \<open>
  The loop's state: the list \<^verbatim>\<open>enhanced_conversations\<close> being appended to, the indices
  for which the warning of line 271 was printed, and the generator.
\<close>

record 'g enhance_state =
  enhanced_conversations :: "json list"
  warnings :: "nat list"
  generator :: 'g

text \<open>One iteration of the loop body, lines 266 to 297, for item \<open>i\<close>.\<close>

definition enhance_item ::
  "'g enhancer \<Rightarrow> nat \<Rightarrow> json \<Rightarrow> 'g enhance_state \<Rightarrow> error + 'g enhance_state" where
  "enhance_item enh i conversation st =
     (if isinstance_dict conversation \<and> contains_key ''conversations'' conversation then
        (case conversation of
           JObj kvs \<Rightarrow>
             (case map_of kvs ''conversations'' of
                Some (JArr conv_messages) \<Rightarrow>
                  (case enh (generator st) conv_messages of
                     Inl e \<Rightarrow> Inl e
                   | Inr (enhanced_messages, g') \<Rightarrow>
                       Inr (st\<lparr>enhanced_conversations := enhanced_conversations st @
                                  [JObj (AList.update ''conversations''
                                           (unwrap_nested enhanced_messages) kvs)],
                               generator := g'\<rparr>))
              | Some _ \<Rightarrow>
                  Inr (st\<lparr>enhanced_conversations := enhanced_conversations st @ [conversation],
                          warnings := warnings st @ [i]\<rparr>)
              | None \<Rightarrow> Inl KeyError)
         | _ \<Rightarrow> Inr (st\<lparr>enhanced_conversations := enhanced_conversations st @ [conversation]\<rparr>))
      else Inr (st\<lparr>enhanced_conversations := enhanced_conversations st @ [conversation]\<rparr>))"

text \<open>The \<^verbatim>\<open>for i, conversation in enumerate(...)\<close> loop, from index \<open>i\<close> on.\<close>

fun enhance_loop ::
  "'g enhancer \<Rightarrow> nat \<Rightarrow> json list \<Rightarrow> 'g enhance_state \<Rightarrow> error + 'g enhance_state" where
  "enhance_loop enh i [] st = Inr st"
| "enhance_loop enh i (conversation # rest) st =
     (case enhance_item enh i conversation st of
        Inl e \<Rightarrow> Inl e
      | Inr st' \<Rightarrow> enhance_loop enh (Suc i) rest st')"

text \<open>Lines 262 to 297 as a whole: the loop started on an empty result list.\<close>

definition enhance_conversations ::
  "'g enhancer \<Rightarrow> json list \<Rightarrow> 'g \<Rightarrow> error + 'g enhance_state" where
  "enhance_conversations enh conversations g =
     enhance_loop enh 0 conversations
       \<lparr>enhanced_conversations = [], warnings = [], generator = g\<rparr>"

section \<open>Conversation normalisation and output shape (\<^verbatim>\<open>create.py\<close>, lines 206 to 308)\<close>

text \<open>
  \<^verbatim>\<open>d.get(key, default)\<close>. The source calls it on values it has checked to be
  dictionaries; any other JSON value has no such method.
\<close>

fun py_get :: "json \<Rightarrow> string \<Rightarrow> json \<Rightarrow> error + json" where
  "py_get (JObj kvs) k d = Inr (case map_of kvs k of Some v \<Rightarrow> v | None \<Rightarrow> d)"
| "py_get _ k d = Inl AttributeError"

text \<open>Line 232 and line 245: a message list wrapped as \<^verbatim>\<open>{"conversations": conv}\<close>.\<close>

definition wrap_conversation :: "json \<Rightarrow> json" where
  "wrap_conversation conv = JObj [(''conversations'', conv)]"

text \<open>
  Lines 222 to 250. \<^verbatim>\<open>convert_to_conversation_format\<close> is imported from
  \<^verbatim>\<open>utils/llm_processing.py\<close>, which is not among the sources; the normaliser takes it as
  the parameter \<open>convert\<close>. The result is the value bound to \<^verbatim>\<open>conversations\<close> and the
  flag \<^verbatim>\<open>is_single_conversation\<close>. In the fallback branch \<^verbatim>\<open>conversations\<close> is the raw
  document, whatever its type. With \<^verbatim>\<open>verbose\<close> set, line 228 takes \<^verbatim>\<open>len(qa_pairs)\<close>.
\<close>

definition normalize ::
  "(json \<Rightarrow> error + json list) \<Rightarrow> bool \<Rightarrow> json \<Rightarrow> error + (json \<times> bool)" where
  "normalize convert verbose data =
     (if isinstance_dict data \<and> contains_key ''qa_pairs'' data then
        (case py_get data ''qa_pairs'' (JArr []) of
           Inl e \<Rightarrow> Inl e
         | Inr qa_pairs \<Rightarrow>
             (case (if verbose then py_len qa_pairs else Inr 0) of
                Inl e \<Rightarrow> Inl e
              | Inr _ \<Rightarrow>
                  (case convert qa_pairs of
                     Inl e \<Rightarrow> Inl e
                   | Inr conv_list \<Rightarrow> Inr (JArr (map wrap_conversation conv_list), False))))
      else if isinstance_dict data \<and> contains_key ''conversations'' data then
        Inr (JArr [data], True)
      else if (case data of
                 JArr items \<Rightarrow>
                   list_all (contains_key ''conversations'') (filter isinstance_dict items)
               | _ \<Rightarrow> False) then
        Inr (data, False)
      else if (case data of
                 JArr items \<Rightarrow>
                   list_all (\<lambda>msg. isinstance_dict msg \<and> contains_key ''from'' msg) items
               | _ \<Rightarrow> False) then
        Inr (JArr [wrap_conversation data], True)
      else Inr (data, False))"

text \<open>
  Lines 206 to 213: the limit is the explicit \<^verbatim>\<open>num_pairs\<close> argument when given, else
  the configured \<^verbatim>\<open>num_cot_enhance_examples\<close>, which is \<^verbatim>\<open>None\<close> when the key is
  absent or null. A configuration is a lookup from key to an entry that is absent
  (\<open>None\<close>), null (\<open>Some None\<close>) or an integer.
\<close>

type_synonym generation_config = "string \<Rightarrow> int option option"

definition resolve_max_examples :: "int option \<Rightarrow> generation_config \<Rightarrow> int option" where
  "resolve_max_examples num_pairs generation_config =
     (case num_pairs of
        Some n \<Rightarrow> Some n
      | None \<Rightarrow>
          (case generation_config ''num_cot_enhance_examples'' of
             None \<Rightarrow> None
           | Some v \<Rightarrow> v))"

text \<open>
  Lines 253 to 259: the one place where \<^verbatim>\<open>conversations\<close> is cut, before the loop. With
  \<^verbatim>\<open>verbose\<close> set, line 259 takes \<^verbatim>\<open>len(conversations)\<close>.
\<close>

definition limit_conversations :: "int option \<Rightarrow> bool \<Rightarrow> json \<Rightarrow> error + json" where
  "limit_conversations max_examples verbose conversations =
     (case (case max_examples of
              None \<Rightarrow> Inr conversations
            | Some m \<Rightarrow>
                (case py_len conversations of
                   Inl e \<Rightarrow> Inl e
                 | Inr n \<Rightarrow> if n > m then py_slice_to m conversations else Inr conversations)) of
        Inl e \<Rightarrow> Inl e
      | Inr limited \<Rightarrow>
          (if verbose then (case py_len limited of Inl e \<Rightarrow> Inl e | Inr _ \<Rightarrow> Inr limited)
           else Inr limited))"

text \<open>Lines 303 to 308: the value handed to \<^verbatim>\<open>json.dump\<close>.\<close>

definition output_value :: "bool \<Rightarrow> json list \<Rightarrow> json" where
  "output_value is_single_conversation enhanced =
     (if is_single_conversation \<and> length enhanced = 1 then enhanced ! 0 else JArr enhanced)"

text \<open>
  Lines 220 to 308 for a parsed document \<open>data\<close>: normalise, limit, iterate, and choose the
  value to write. The result is that value and the final state of the loop.
\<close>

definition enhance_data ::
  "(json \<Rightarrow> error + json list) \<Rightarrow> 'g enhancer \<Rightarrow> int option \<Rightarrow> bool \<Rightarrow> json \<Rightarrow> 'g
     \<Rightarrow> error + (json \<times> 'g enhance_state)" where
  "enhance_data convert enh max_examples verbose data g =
     (case normalize convert verbose data of
        Inl e \<Rightarrow> Inl e
      | Inr (conversations, is_single_conversation) \<Rightarrow>
          (case limit_conversations max_examples verbose conversations of
             Inl e \<Rightarrow> Inl e
           | Inr limited \<Rightarrow>
               (case py_iter limited of
                  Inl e \<Rightarrow> Inl e
                | Inr items \<Rightarrow>
                    (case enhance_conversations enh items g of
                       Inl e \<Rightarrow> Inl e
                     | Inr st \<Rightarrow>
                         Inr (output_value is_single_conversation (enhanced_conversations st),
                              st)))))"

text \<open>
  Modelled from the spec: \<^verbatim>\<open>convert_to_conversation_format\<close> of
  \<^verbatim>\<open>utils/llm_processing.py\<close> is missing from the sources. The specification says that each
  QA pair becomes a two-message conversation, the human question followed by the assistant
  answer, with messages of the form \<^verbatim>\<open>{from, value}\<close>. A pair without a question or an
  answer is rejected as a dictionary lookup would, a pair that is no object as a type
  error.
\<close>

definition message :: "string \<Rightarrow> json \<Rightarrow> json" where
  "message role v = JObj [(''from'', JStr role), (''value'', v)]"

text \<open>
  Modelled from the spec: the conversion of one QA pair by the missing
  \<^verbatim>\<open>convert_to_conversation_format\<close>, the human question followed by the assistant
  answer.
\<close>

fun qa_pair_to_conversation :: "json \<Rightarrow> error + json" where
  "qa_pair_to_conversation (JObj kv) =
     (case map_of kv ''question'' of
        None \<Rightarrow> Inl KeyError
      | Some q \<Rightarrow>
          (case map_of kv ''answer'' of
             None \<Rightarrow> Inl KeyError
           | Some a \<Rightarrow> Inr (JArr [message ''human'' q, message ''assistant'' a])))"
| "qa_pair_to_conversation _ = Inl TypeError"

text \<open>
  Modelled from the spec: the missing \<^verbatim>\<open>convert_to_conversation_format\<close> converts each
  pair in turn, in order, and stops at the first pair it rejects.
\<close>

fun convert_pairs :: "json list \<Rightarrow> error + json list" where
  "convert_pairs [] = Inr []"
| "convert_pairs (pair # pairs) =
     (case qa_pair_to_conversation pair of
        Inl e \<Rightarrow> Inl e
      | Inr conv \<Rightarrow>
          (case convert_pairs pairs of Inl e \<Rightarrow> Inl e | Inr convs \<Rightarrow> Inr (conv # convs)))"

text \<open>
  Modelled from the spec: \<^verbatim>\<open>convert_to_conversation_format\<close> of
  \<^verbatim>\<open>utils/llm_processing.py\<close>, missing from the sources, as the iteration over its
  argument.
\<close>

definition convert_to_conversation_format :: "json \<Rightarrow> error + json list" where
  "convert_to_conversation_format qa_pairs =
     (case py_iter qa_pairs of Inl e \<Rightarrow> Inl e | Inr pairs \<Rightarrow> convert_pairs pairs)"

section \<open>Paths and strings\<close>

text \<open>
  \<^verbatim>\<open>sub in s\<close> for strings, \<^verbatim>\<open>s.startswith\<close> (\<^const>\<open>prefix\<close>) and \<^verbatim>\<open>s.endswith\<close>
  (\<^const>\<open>suffix\<close>).
\<close>

fun substring_in :: "string \<Rightarrow> string \<Rightarrow> bool" where
  "substring_in sub [] = (sub = [])"
| "substring_in sub (c # cs) = (prefix sub (c # cs) \<or> substring_in sub cs)"

text \<open>\<^verbatim>\<open>s.rfind(c)\<close> for one character: the last index of \<open>c\<close>, or \<open>-1\<close>.\<close>

definition rfind :: "char \<Rightarrow> string \<Rightarrow> int" where
  "rfind c s =
     (if c \<in> set s then int (length s) - 1 - int (length (takeWhile (\<lambda>x. x \<noteq> c) (rev s)))
      else - 1)"

text \<open>
  \<^verbatim>\<open>os.path.splitext\<close>, \<^verbatim>\<open>os.path.basename\<close> and \<^verbatim>\<open>os.path.join\<close> of the POSIX
  flavour of the standard library. The extension starts at the last dot, provided that
  dot comes after the last slash and some character of the file name before it is not a
  dot.
\<close>

definition splitext :: "string \<Rightarrow> string \<times> string" where
  "splitext p =
     (let sepIndex = rfind (CHR ''/'') p; dotIndex = rfind (CHR ''.'') p in
      if dotIndex > sepIndex \<and>
         list_ex (\<lambda>c. c \<noteq> CHR ''.'')
           (take (nat (dotIndex - (sepIndex + 1))) (drop (nat (sepIndex + 1)) p))
      then (take (nat dotIndex) p, drop (nat dotIndex) p)
      else (p, []))"

definition basename :: "string \<Rightarrow> string" where
  "basename p = drop (nat (rfind (CHR ''/'') p + 1)) p"

definition join :: "string \<Rightarrow> string \<Rightarrow> string" where
  "join a b =
     (if prefix ''/'' b then b
      else if a = [] \<or> suffix ''/'' a then a @ b
      else a @ ''/'' @ b)"

text \<open>
  \<^verbatim>\<open>s.lower()\<close> on the ASCII letters. The code compares the result with ASCII
  extensions only, and no other character lowers to one of their letters.
\<close>

definition lower_char :: "char \<Rightarrow> char" where
  "lower_char c =
     (case map_of (zip ''ABCDEFGHIJKLMNOPQRSTUVWXYZ'' ''abcdefghijklmnopqrstuvwxyz'') c of
        Some l \<Rightarrow> l
      | None \<Rightarrow> c)"

definition lower :: "string \<Rightarrow> string" where
  "lower s = map lower_char s"

section \<open>Parser selection and ingestion (\<^verbatim>\<open>ingest.py\<close>)\<close>

text \<open>The parser classes that \<^verbatim>\<open>determine_parser\<close> instantiates.\<close>

datatype parser =
    PDFParser
  | HTMLParser
  | YouTubeParser
  | DOCXParser
  | PPTParser
  | TXTParser
  | MultimodalParser

text \<open>
  What \<^verbatim>\<open>ingest.py\<close> asks of the outside world: the HEAD request of
  \<^verbatim>\<open>_check_pdf_url\<close> (an exception, or the \<^verbatim>\<open>Content-Type\<close> header if there is one),
  \<^verbatim>\<open>os.path.exists\<close>, \<^verbatim>\<open>os.makedirs\<close>, the parsers' \<^verbatim>\<open>parse\<close>,
  \<^verbatim>\<open>urlparse(...).netloc\<close> and \<^verbatim>\<open>create_lance_dataset\<close>. \<open>RequestException\<close> is the
  exception class that \<^verbatim>\<open>_check_pdf_url\<close> catches.
\<close>

datatype head_result =
    RequestException
  | HeadRaises error
  | Response "string option"

record 'c ingest_env =
  requests_head :: "string \<Rightarrow> head_result"
  path_exists :: "string \<Rightarrow> bool"
  makedirs :: "string \<Rightarrow> error option"
  parse :: "parser \<Rightarrow> string \<Rightarrow> error + 'c"
  netloc :: "string \<Rightarrow> error + string"
  create_lance_dataset :: "'c \<Rightarrow> string \<Rightarrow> bool \<Rightarrow> error option"

text \<open>The calls to the outside world that a run of \<^verbatim>\<open>determine_parser\<close> makes, in order.\<close>

datatype io_event = HeadRequest string | ExistsCheck string

text \<open>\<^verbatim>\<open>_check_pdf_url\<close>, lines 18 to 33.\<close>

definition check_pdf_url :: "('c, 'x) ingest_env_scheme \<Rightarrow> string \<Rightarrow> error + bool" where
  "check_pdf_url env url =
     (case requests_head env url of
        RequestException \<Rightarrow> Inr False
      | HeadRaises e \<Rightarrow> Inl e
      | Response content_type \<Rightarrow>
          Inr (substring_in ''application/pdf''
                 (case content_type of Some ct \<Rightarrow> ct | None \<Rightarrow> [])))"

text \<open>
  \<^verbatim>\<open>determine_parser\<close>, lines 36 to 83. The unused \<^verbatim>\<open>config\<close> argument is left out.
  The result is the parser or the exception, together with the calls made to the outside
  world.
\<close>

definition determine_parser ::
  "('c, 'x) ingest_env_scheme \<Rightarrow> string \<Rightarrow> bool \<Rightarrow> (error + parser) \<times> io_event list" where
  "determine_parser env file_path multimodal =
     (let ext = lower (snd (splitext file_path)) in
      if multimodal then
        (if ext \<in> set [''.pdf'', ''.docx'', ''.pptx''] then (Inr MultimodalParser, [])
         else (Inl (ValueError (''Unsupported file extension for multimodal parsing: '' @ ext)),
               []))
      else if ext = ''.pdf'' then (Inr PDFParser, [])
      else if prefix ''http://'' file_path \<or> prefix ''https://'' file_path then
        (if substring_in ''youtube.com'' file_path \<or> substring_in ''youtu.be'' file_path then
           (Inr YouTubeParser, [])
         else
           (case check_pdf_url env file_path of
              Inl e \<Rightarrow> (Inl e, [HeadRequest file_path])
            | Inr is_pdf \<Rightarrow>
                (if is_pdf then (Inr (if multimodal then MultimodalParser else PDFParser),
                                 [HeadRequest file_path])
                 else (Inr HTMLParser, [HeadRequest file_path]))))
      else if path_exists env file_path then
        (case map_of [(''.html'', HTMLParser), (''.htm'', HTMLParser), (''.docx'', DOCXParser),
                      (''.pptx'', PPTParser), (''.txt'', TXTParser)] ext of
           Some p \<Rightarrow> (Inr p, [ExistsCheck file_path])
         | None \<Rightarrow> (Inl (ValueError (''Unsupported file extension: '' @ ext)),
                    [ExistsCheck file_path]))
      else (Inl (FileNotFoundError (''File not found: '' @ file_path)), [ExistsCheck file_path]))"

text \<open>
  Line 125: \<^verbatim>\<open>re.search(r"(?:v=|\.be/)([^&]+)", file_path)\<close>. The search takes the leftmost
  position at which \<^verbatim>\<open>v=\<close> or \<^verbatim>\<open>.be/\<close> is followed by at least one character other than
  \<^verbatim>\<open>&\<close>; group 1 is the longest run of such characters. The result is group 1 of the
  match, or \<open>None\<close> when there is no match.
\<close>

definition video_id_group :: "string \<Rightarrow> string option" where
  "video_id_group rest =
     (let g = takeWhile (\<lambda>c. c \<noteq> CHR ''&'') rest in if g = [] then None else Some g)"

definition video_id_match_here :: "string \<Rightarrow> string option" where
  "video_id_match_here s =
     (if prefix ''v='' s then video_id_group (drop 2 s)
      else if prefix ''.be/'' s then video_id_group (drop 4 s)
      else None)"

fun video_id_search :: "string \<Rightarrow> string option" where
  "video_id_search [] = None"
| "video_id_search (c # cs) =
     (case video_id_match_here (c # cs) of
        Some g \<Rightarrow> Some g
      | None \<Rightarrow> video_id_search cs)"

text \<open>
  Lines 119 to 136, the name derived when no \<^verbatim>\<open>output_name\<close> is given. Calling
  \<^verbatim>\<open>.group(1)\<close> on the \<^verbatim>\<open>None\<close> of a failed search is an \<^verbatim>\<open>AttributeError\<close>.
\<close>

definition derive_output_name :: "('c, 'x) ingest_env_scheme \<Rightarrow> string \<Rightarrow> error + string" where
  "derive_output_name env file_path =
     (if prefix ''http://'' file_path \<or> prefix ''https://'' file_path then
        (if substring_in ''youtube.com'' file_path \<or> substring_in ''youtu.be'' file_path then
           (case video_id_search file_path of
              None \<Rightarrow> Inl AttributeError
            | Some video_id \<Rightarrow> Inr (''youtube_'' @ video_id))
         else
           (case netloc env file_path of
              Inl e \<Rightarrow> Inl e
            | Inr domain \<Rightarrow> Inr (map (\<lambda>c. if c = CHR ''.'' then CHR ''_'' else c) domain)))
      else Inr (fst (splitext (basename file_path))))"

text \<open>
  \<^verbatim>\<open>process_file\<close> of \<^verbatim>\<open>ingest.py\<close>, lines 86 to 151. \<^verbatim>\<open>os.path.exists(None)\<close> is a
  \<^verbatim>\<open>TypeError\<close>. An \<^verbatim>\<open>output_name\<close> that is \<^verbatim>\<open>None\<close> or empty is derived.
\<close>

definition ingest_process_file ::
  "('c, 'x) ingest_env_scheme \<Rightarrow> string \<Rightarrow> string option \<Rightarrow> string option \<Rightarrow> bool
     \<Rightarrow> error + string" where
  "ingest_process_file env file_path output_dir output_name multimodal =
     (case output_dir of
        None \<Rightarrow> Inl TypeError
      | Some dir \<Rightarrow>
          (case (if path_exists env dir then None else makedirs env dir) of
             Some e \<Rightarrow> Inl e
           | None \<Rightarrow>
               (case fst (determine_parser env file_path multimodal) of
                  Inl e \<Rightarrow> Inl e
                | Inr p \<Rightarrow>
                    (case parse env p file_path of
                       Inl e \<Rightarrow> Inl e
                     | Inr content \<Rightarrow>
                         (case (case output_name of
                                  None \<Rightarrow> derive_output_name env file_path
                                | Some name \<Rightarrow>
                                    if name = [] then derive_output_name env file_path
                                    else Inr name) of
                            Inl e \<Rightarrow> Inl e
                          | Inr name \<Rightarrow>
                              (let output_path = join dir (name @ ''.lance'') in
                               case create_lance_dataset env content output_path multimodal of
                                 Some e \<Rightarrow> Inl e
                               | None \<Rightarrow> Inr output_path))))))"

section \<open>Content generation (\<^verbatim>\<open>create.py\<close>, \<^verbatim>\<open>process_file\<close>)\<close>

text \<open>A row of the document list: the keys \<^verbatim>\<open>text\<close> and \<^verbatim>\<open>image\<close>.\<close>

record document =
  doc_text :: string
  doc_image :: "string option"

text \<open>
  What \<^verbatim>\<open>process_file\<close> asks of its collaborators and of the file system:
  \<^verbatim>\<open>os.makedirs\<close>, the construction of \<^verbatim>\<open>LLMClient\<close>, \<^verbatim>\<open>get_generation_config\<close>,
  reading a file as text, \<^verbatim>\<open>load_lance_dataset\<close>, \<^verbatim>\<open>json.load\<close> of a file, whether
  opening an output path for writing fails (\<open>open_error\<close>) and whether dumping a value
  into the opened file fails (\<open>dump_error\<close>), the generators (each one's construction and
  call taken together, nothing observable lying between the two), the construction of
  \<^verbatim>\<open>COTGenerator\<close> for the enhancement path, its \<^verbatim>\<open>enhance_with_cot\<close>, and
  \<^verbatim>\<open>convert_to_conversation_format\<close>. The chunking overrides of lines 70 to 73 only change
  what the generators read from the client and are part of those collaborators.
\<close>

record 'g create_env =
  make_output_dir :: "string \<Rightarrow> error option"
  llm_client :: "error option"
  generation_config :: generation_config
  read_text :: "string \<Rightarrow> error + string"
  load_lance_dataset :: "string \<Rightarrow> error + document list"
  json_load :: "string \<Rightarrow> error + json"
  open_error :: "string \<Rightarrow> error option"
  dump_error :: "string \<Rightarrow> json \<Rightarrow> error option"
  qa_process_documents :: "document list \<Rightarrow> int option \<Rightarrow> bool \<Rightarrow> bool \<Rightarrow> error + json"
  multimodal_process_dataset ::
    "document list \<Rightarrow> string \<Rightarrow> int option \<Rightarrow> bool \<Rightarrow> string \<Rightarrow> error + string"
  vqa_process_dataset :: "document list \<Rightarrow> string \<Rightarrow> int option \<Rightarrow> bool \<Rightarrow> error + string"
  generate_summary :: "string \<Rightarrow> error + json"
  cot_process_document :: "string \<Rightarrow> int option \<Rightarrow> bool \<Rightarrow> error + json"
  cot_generator :: "error + 'g"
  enhance_with_cot :: "'g enhancer"
  convert_qa_pairs :: "json \<Rightarrow> error + json list"

text \<open>Lines 82 to 86.\<close>

definition load_documents :: "('g, 'x) create_env_scheme \<Rightarrow> string \<Rightarrow> error + document list" where
  "load_documents env file_path =
     (if suffix ''.lance'' file_path then load_lance_dataset env file_path
      else (case read_text env file_path of
              Inl e \<Rightarrow> Inl e
            | Inr t \<Rightarrow> Inr [\<lparr>doc_text = t, doc_image = None\<rparr>]))"

text \<open>\<^verbatim>\<open>" ".join(...)\<close> of lines 143 and 165.\<close>

fun join_space :: "string list \<Rightarrow> string" where
  "join_space [] = []"
| "join_space [x] = x"
| "join_space (x # y # ys) = x @ '' '' @ join_space (y # ys)"

text \<open>
  What a call leaves in a file it has opened for writing: the complete dump of a value,
  or, when the dump failed after \<^verbatim>\<open>open\<close> had truncated the file, an empty or partial
  file.
\<close>

datatype file_content = Complete json | Partial

text \<open>
  \<^verbatim>\<open>with open(output_path, 'w') as f: json.dump(value, f, indent=2)\<close>, in its two steps.
  When \<^verbatim>\<open>open\<close> raises, no file is touched. When \<^verbatim>\<open>open\<close> succeeds the file exists and
  is truncated; the dump (with the closing of the file) then either raises and leaves a
  partial file, or completes. The result is the exception, if any, and the files touched.
\<close>

definition write_json ::
  "('g, 'x) create_env_scheme \<Rightarrow> string \<Rightarrow> json
     \<Rightarrow> error option \<times> (string \<times> file_content) list" where
  "write_json env output_path v =
     (case open_error env output_path of
        Some e \<Rightarrow> (Some e, [])
      | None \<Rightarrow>
          (case dump_error env output_path v of
             Some e \<Rightarrow> (Some e, [(output_path, Partial)])
           | None \<Rightarrow> (None, [(output_path, Complete v)])))"

text \<open>
  The messages that \<^verbatim>\<open>process_file\<close> prints about the writing of its result: lines 107,
  113 and 115, all in the \<^verbatim>\<open>qa\<close> path. The other paths print nothing about the write.
\<close>

datatype printed =
    SavingResult string
  | SuccessfullyWrote string
  | ErrorWritingResult error

text \<open>Truth value of a JSON value, and \<^verbatim>\<open>v[0]\<close>.\<close>

fun truthy :: "json \<Rightarrow> bool" where
  "truthy JNull = False"
| "truthy (JBool b) = b"
| "truthy (JInt n) = (n \<noteq> 0)"
| "truthy (JFloat r) = (r \<noteq> 0)"
| "truthy (JStr s) = (s \<noteq> [])"
| "truthy (JArr xs) = (xs \<noteq> [])"
| "truthy (JObj kvs) = (kvs \<noteq> [])"

fun py_index0 :: "json \<Rightarrow> error + json" where
  "py_index0 (JArr (x # xs)) = Inr x"
| "py_index0 (JArr []) = Inl IndexError"
| "py_index0 (JStr (c # cs)) = Inr (JStr [c])"
| "py_index0 (JStr []) = Inl IndexError"
| "py_index0 (JObj kvs) = Inl KeyError"
| "py_index0 _ = Inl TypeError"

text \<open>
  Lines 185 to 192, the report printed after the write when \<^verbatim>\<open>verbose\<close> is set: only
  the exceptions it can raise matter here.
\<close>

definition cot_verbose_report :: "json \<Rightarrow> error option" where
  "cot_verbose_report result =
     (case py_get result ''cot_examples'' JNull of
        Inl e \<Rightarrow> Some e
      | Inr examples \<Rightarrow>
          (if \<not> truthy examples then None
           else (case py_len examples of
                   Inl e \<Rightarrow> Some e
                 | Inr n \<Rightarrow>
                     (if \<not> n > 0 then None
                      else (case py_index0 examples of
                              Inl e \<Rightarrow> Some e
                            | Inr first_example \<Rightarrow>
                                (case py_get first_example ''reasoning'' (JStr []) of
                                   Inl e \<Rightarrow> Some e
                                 | Inr reasoning \<Rightarrow>
                                     (case py_slice_to 100 reasoning of
                                        Inl e \<Rightarrow> Some e
                                      | Inr _ \<Rightarrow> None)))))))"

text \<open>
  Lines 216 to 316: the \<^verbatim>\<open>try\<close> block of the enhancement path, and its handler, which
  turns a \<^verbatim>\<open>JSONDecodeError\<close> raised anywhere in the block into a \<^verbatim>\<open>ValueError\<close>.
  The outcome of \<^verbatim>\<open>process_file\<close> is what it returns or raises, the files it has
  opened for writing with what they hold afterwards, and the messages it has printed
  about the writing of its result. The rest of its console output (the provider line,
  the warnings of the enhancement loop, which are in the loop's state, and the debugging
  lines under \<^verbatim>\<open>verbose\<close>) is not part of the outcome, nor are the files that the
  \<^verbatim>\<open>vqa\<close> and \<^verbatim>\<open>multimodal-qa\<close> generators write themselves.
\<close>

type_synonym outcome = "(error + string) \<times> (string \<times> file_content) list \<times> printed list"

definition cot_enhance_try ::
  "('g, 'x) create_env_scheme \<Rightarrow> string \<Rightarrow> string \<Rightarrow> string \<Rightarrow> int option \<Rightarrow> bool \<Rightarrow> 'g
     \<Rightarrow> outcome" where
  "cot_enhance_try env file_path output_dir base_name max_examples verbose g =
     (case json_load env file_path of
        Inl e \<Rightarrow> (Inl e, [], [])
      | Inr data \<Rightarrow>
          (case enhance_data (convert_qa_pairs env) (enhance_with_cot env) max_examples verbose
                  data g of
             Inl e \<Rightarrow> (Inl e, [], [])
           | Inr (out, st) \<Rightarrow>
               (let output_path = join output_dir (base_name @ ''_enhanced.json'') in
                case write_json env output_path out of
                  (Some e, files) \<Rightarrow> (Inl e, files, [])
                | (None, files) \<Rightarrow> (Inr output_path, files, []))))"

definition except_json_decode_error :: "string \<Rightarrow> outcome \<Rightarrow> outcome" where
  "except_json_decode_error file_path r =
     (case fst r of
        Inl JSONDecodeError \<Rightarrow>
          (Inl (ValueError (''Failed to parse '' @ file_path @
                  '' as JSON. For cot-enhance, input must be a valid JSON file.'')), snd r)
      | _ \<Rightarrow> r)"

text \<open>
  \<^verbatim>\<open>process_file\<close> of \<^verbatim>\<open>create.py\<close>, lines 28 to 320. The arguments that only
  configure the client are part of the environment.
\<close>

definition create_process_file ::
  "('g, 'x) create_env_scheme \<Rightarrow> string \<Rightarrow> string \<Rightarrow> string \<Rightarrow> int option \<Rightarrow> bool \<Rightarrow> bool
     \<Rightarrow> outcome" where
  "create_process_file env file_path output_dir content_type num_pairs verbose rolling_summary =
     (case make_output_dir env output_dir of
        Some e \<Rightarrow> (Inl e, [], [])
      | None \<Rightarrow>
     (case llm_client env of
        Some e \<Rightarrow> (Inl e, [], [])
      | None \<Rightarrow>
     (let base_name = fst (splitext (basename file_path)) in
      case load_documents env file_path of
        Inl e \<Rightarrow> (Inl e, [], [])
      | Inr documents \<Rightarrow>
     (if content_type = ''qa'' then
        (case qa_process_documents env documents
                (case num_pairs of
                   Some n \<Rightarrow> Some n
                 | None \<Rightarrow> (case generation_config env ''num_pairs'' of
                              None \<Rightarrow> Some 25
                            | Some v \<Rightarrow> v))
                verbose rolling_summary of
           Inl e \<Rightarrow> (Inl e, [], [])
         | Inr result \<Rightarrow>
             (let output_path = join output_dir (base_name @ ''_qa_pairs.json'') in
              case write_json env output_path result of
                (Some e, files) \<Rightarrow>
                  (Inr output_path, files, [SavingResult output_path, ErrorWritingResult e])
              | (None, files) \<Rightarrow>
                  (Inr output_path, files,
                   [SavingResult output_path, SuccessfullyWrote output_path])))
      else if content_type = ''multimodal-qa'' then
        (multimodal_process_dataset env documents output_dir num_pairs verbose base_name, [],
         [])
      else if content_type = ''vqa'' then
        (vqa_process_dataset env documents output_dir num_pairs verbose, [], [])
      else if content_type = ''summary'' then
        (case generate_summary env (join_space (map doc_text documents)) of
           Inl e \<Rightarrow> (Inl e, [], [])
         | Inr summary \<Rightarrow>
             (let output_path = join output_dir (base_name @ ''_summary.json'') in
              case write_json env output_path (JObj [(''summary'', summary)]) of
                (Some e, files) \<Rightarrow> (Inl e, files, [])
              | (None, files) \<Rightarrow> (Inr output_path, files, [])))
      else if content_type = ''cot'' then
        (case cot_process_document env (join_space (map doc_text documents))
                (case num_pairs of
                   Some n \<Rightarrow> Some n
                 | None \<Rightarrow> (case generation_config env ''num_cot_examples'' of
                              None \<Rightarrow> Some 5
                            | Some v \<Rightarrow> v))
                verbose of
           Inl e \<Rightarrow> (Inl e, [], [])
         | Inr result \<Rightarrow>
             (let output_path = join output_dir (base_name @ ''_cot_examples.json'') in
              case write_json env output_path result of
                (Some e, files) \<Rightarrow> (Inl e, files, [])
              | (None, files) \<Rightarrow>
                  (case (if verbose then cot_verbose_report result else None) of
                     Some e \<Rightarrow> (Inl e, files, [])
                   | None \<Rightarrow> (Inr output_path, files, []))))
      else if content_type = ''cot-enhance'' then
        (case cot_generator env of
           Inl e \<Rightarrow> (Inl e, [], [])
         | Inr g \<Rightarrow>
             (case read_text env file_path of
                Inl e \<Rightarrow> (Inl e, [], [])
              | Inr document_text \<Rightarrow>
                  except_json_decode_error file_path
                    (cot_enhance_try env file_path output_dir base_name
                       (resolve_max_examples num_pairs (generation_config env)) verbose g)))
      else (Inl (ValueError (''Unknown content type: '' @ content_type)), [], [])))))"

section \<open>Environments for the concrete instances\<close>

text \<open>
  An ingestion environment without network and with an empty file system: every HEAD
  request fails with a \<^verbatim>\<open>RequestException\<close>, no path exists, directories can be created,
  and the parsers and the dataset writer succeed.
\<close>

definition offline_env :: "unit ingest_env" where
  "offline_env =
     \<lparr>requests_head = (\<lambda>url. RequestException),
      path_exists = (\<lambda>p. False),
      makedirs = (\<lambda>p. None),
      parse = (\<lambda>p file_path. Inr ()),
      netloc = (\<lambda>url. Inr []),
      create_lance_dataset = (\<lambda>content p multimodal. None)\<rparr>"

text \<open>
  A generation environment in which every collaborator succeeds: the input file parses to
  \<open>input\<close>, the enhancement strategy appends one assistant message to the messages it is
  given, and opening an output file for writing fails with an \<^verbatim>\<open>OSError\<close> exactly when
  \<open>disk_full\<close> is set.
\<close>

definition example_create_env :: "json \<Rightarrow> bool \<Rightarrow> unit create_env" where
  "example_create_env input disk_full =
     \<lparr>make_output_dir = (\<lambda>dir. None),
      llm_client = None,
      generation_config = (\<lambda>key. None),
      read_text = (\<lambda>p. Inr ''document text''),
      load_lance_dataset = (\<lambda>p. Inr []),
      json_load = (\<lambda>p. Inr input),
      open_error = (\<lambda>p. if disk_full then Some OSError else None),
      dump_error = (\<lambda>p v. None),
      qa_process_documents = (\<lambda>documents n verbose rolling. Inr (JObj [(''qa_pairs'', JArr [])])),
      multimodal_process_dataset = (\<lambda>documents dir n verbose base. Inr (join dir base)),
      vqa_process_dataset = (\<lambda>documents dir n verbose. Inr dir),
      generate_summary = (\<lambda>t. Inr (JStr ''a summary'')),
      cot_process_document = (\<lambda>t n steps. Inr (JObj [(''cot_examples'', JArr [])])),
      cot_generator = Inr (),
      enhance_with_cot = (\<lambda>g msgs. Inr (JArr (msgs @ [message ''assistant'' (JStr ''A'')]), g)),
      convert_qa_pairs = convert_to_conversation_format\<rparr>"

section \<open>Properties of the enhancement loop\<close>

subsection \<open>One iteration\<close>

lemma contains_key_map_of:
  "contains_key k (JObj kvs) \<longleftrightarrow> map_of kvs k \<noteq> None"
  by (simp add: map_of_eq_None_iff)

lemma enhance_item_malformed:
  assumes "map_of kvs ''conversations'' = Some v" and "\<not> isinstance_list v"
  shows "enhance_item enh i (JObj kvs) st =
         Inr (st\<lparr>enhanced_conversations := enhanced_conversations st @ [JObj kvs],
                 warnings := warnings st @ [i]\<rparr>)"
  using assms by (cases v) (simp_all add: enhance_item_def contains_key_map_of del: contains_key.simps)

lemma enhance_item_wellformed:
  assumes "map_of kvs ''conversations'' = Some (JArr msgs)"
  shows "enhance_item enh i (JObj kvs) st =
         (case enh (generator st) msgs of
            Inl e \<Rightarrow> Inl e
          | Inr (em, g') \<Rightarrow>
              Inr (st\<lparr>enhanced_conversations := enhanced_conversations st @
                         [JObj (AList.update ''conversations'' (unwrap_nested em) kvs)],
                      generator := g'\<rparr>))"
  using assms by (simp add: enhance_item_def contains_key_map_of del: contains_key.simps)

lemma enhance_item_other:
  assumes "\<not> (isinstance_dict c \<and> contains_key ''conversations'' c)"
  shows "enhance_item enh i c st =
         Inr (st\<lparr>enhanced_conversations := enhanced_conversations st @ [c]\<rparr>)"
  using assms by (auto simp: enhance_item_def)

lemma enhance_item_cases:
  obtains (other) "\<not> (isinstance_dict c \<and> contains_key ''conversations'' c)"
  | (malformed) kvs v where "c = JObj kvs" "map_of kvs ''conversations'' = Some v" "\<not> isinstance_list v"
  | (wellformed) kvs msgs where "c = JObj kvs" "map_of kvs ''conversations'' = Some (JArr msgs)"
proof (cases c)
  case (JObj kvs)
  show ?thesis
  proof (cases "map_of kvs ''conversations''")
    case None
    with JObj have "\<not> (isinstance_dict c \<and> contains_key ''conversations'' c)"
      by (simp add: contains_key_map_of del: contains_key.simps)
    then show ?thesis by (rule other)
  next
    case (Some v)
    show ?thesis
    proof (cases v)
      case (JArr msgs)
      with JObj Some show ?thesis by (auto intro: wellformed)
    qed (use JObj Some in \<open>auto intro: malformed\<close>)
  qed
qed (auto intro: other)

lemma enhance_item_appends:
  assumes "enhance_item enh i c st = Inr st'"
  shows "\<exists>x w. enhanced_conversations st' = enhanced_conversations st @ [x] \<and>
               warnings st' = warnings st @ w \<and> set w \<subseteq> {i} \<and>
               enhance_item enh i c \<lparr>enhanced_conversations = [], warnings = [], generator = generator st\<rparr>
                 = Inr \<lparr>enhanced_conversations = [x], warnings = w, generator = generator st'\<rparr>"
proof (cases c rule: enhance_item_cases)
  case other
  with assms show ?thesis by (auto simp: enhance_item_other)
next
  case (malformed kvs v)
  with assms show ?thesis by (auto simp: enhance_item_malformed)
next
  case (wellformed kvs msgs)
  with assms show ?thesis
    by (auto simp: enhance_item_wellformed split: sum.splits prod.splits)
qed


lemma enhance_loop_Inr:
  assumes "enhance_loop enh i cs st = Inr st'"
  shows "\<exists>out ws. enhanced_conversations st' = enhanced_conversations st @ out \<and>
           warnings st' = warnings st @ ws \<and> length out = length cs \<and>
           (\<forall>j<length cs. \<exists>g w g'.
              enhance_item enh (i + j) (cs ! j)
                \<lparr>enhanced_conversations = [], warnings = [], generator = g\<rparr>
              = Inr \<lparr>enhanced_conversations = [out ! j], warnings = w, generator = g'\<rparr> \<and>
              set w \<subseteq> set ws)"
  using assms
proof (induction cs arbitrary: i st)
  case Nil
  then show ?case by simp
next
  case (Cons c cs)
  from Cons.prems obtain st1 where
    item: "enhance_item enh i c st = Inr st1" and loop: "enhance_loop enh (Suc i) cs st1 = Inr st'"
    by (auto split: sum.splits)
  from enhance_item_appends[OF item] obtain x w1 where
    x: "enhanced_conversations st1 = enhanced_conversations st @ [x]"
       "warnings st1 = warnings st @ w1"
       "enhance_item enh i c \<lparr>enhanced_conversations = [], warnings = [], generator = generator st\<rparr>
          = Inr \<lparr>enhanced_conversations = [x], warnings = w1, generator = generator st1\<rparr>"
    by blast
  from Cons.IH[OF loop] obtain out ws where
    o: "enhanced_conversations st' = enhanced_conversations st1 @ out"
       "warnings st' = warnings st1 @ ws" "length out = length cs"
       "\<forall>j<length cs. \<exists>g w g'.
              enhance_item enh (Suc i + j) (cs ! j)
                \<lparr>enhanced_conversations = [], warnings = [], generator = g\<rparr>
              = Inr \<lparr>enhanced_conversations = [out ! j], warnings = w, generator = g'\<rparr> \<and>
              set w \<subseteq> set ws"
    by blast
  have "\<exists>g w g'. enhance_item enh (i + j) ((c # cs) ! j)
                \<lparr>enhanced_conversations = [], warnings = [], generator = g\<rparr>
              = Inr \<lparr>enhanced_conversations = [(x # out) ! j], warnings = w, generator = g'\<rparr> \<and>
              set w \<subseteq> set (w1 @ ws)" if "j < length (c # cs)" for j
  proof (cases j)
    case 0
    with x(3) show ?thesis by auto
  next
    case (Suc k)
    with that have "k < length cs" by simp
    with o(4) obtain g w g' where
      "enhance_item enh (Suc i + k) (cs ! k)
                \<lparr>enhanced_conversations = [], warnings = [], generator = g\<rparr>
              = Inr \<lparr>enhanced_conversations = [out ! k], warnings = w, generator = g'\<rparr>"
      "set w \<subseteq> set ws" by blast
    with Suc show ?thesis by auto
  qed
  with x o show ?case
    by (intro exI[of _ "x # out"] exI[of _ "w1 @ ws"]) simp
qed

lemma enhance_loop_Inl:
  assumes "enhance_loop enh i cs st = Inl e"
  shows "\<exists>c\<in>set cs. \<exists>kvs msgs g. c = JObj kvs \<and>
           map_of kvs ''conversations'' = Some (JArr msgs) \<and> enh g msgs = Inl e"
  using assms
proof (induction cs arbitrary: i st)
  case Nil
  then show ?case by simp
next
  case (Cons c cs)
  show ?case
  proof (cases "enhance_item enh i c st")
    case (Inl e')
    with Cons.prems have e: "e' = e" by simp
    from Inl show ?thesis unfolding e
    proof (cases c rule: enhance_item_cases)
      case other
      with Inl show ?thesis by (simp add: enhance_item_other)
    next
      case (malformed kvs v)
      with Inl show ?thesis by (simp add: enhance_item_malformed)
    next
      case (wellformed kvs msgs)
      with Inl e have "enh (generator st) msgs = Inl e"
        by (auto simp: enhance_item_wellformed split: sum.splits prod.splits)
      with wellformed show ?thesis by auto
    qed
  next
    case (Inr st1)
    with Cons.prems have "enhance_loop enh (Suc i) cs st1 = Inl e" by simp
    from Cons.IH[OF this] show ?thesis by auto
  qed
qed

lemma update_nth_other:
  "n < length kvs \<Longrightarrow> fst (kvs ! n) \<noteq> k \<Longrightarrow> AList.update k v kvs ! n = kvs ! n"
proof (induction kvs arbitrary: n)
  case Nil
  then show ?case by simp
next
  case (Cons p ps)
  then show ?case by (cases n) auto
qed

lemma update_present_keys:
  "map_of kvs k = Some v0 \<Longrightarrow> map fst (AList.update k v kvs) = map fst kvs"
proof -
  assume "map_of kvs k = Some v0"
  then have "(k, v0) \<in> set kvs" by (rule map_of_SomeD)
  then have "k \<in> set (map fst kvs)" by force
  then show ?thesis by (simp add: AList.update_keys)
qed

subsection \<open>The unwrap rule\<close>

text \<open>
  C3. When the conversation's \<^verbatim>\<open>conversations\<close> field is a list and the strategy returns
  a non-empty list whose first element is a list, the iteration does not raise and stores
  that first element, one level below what was returned and no deeper, as the
  \<^verbatim>\<open>conversations\<close> field of the appended item.
\<close>

theorem unwrap_rule:
  assumes "map_of kvs ''conversations'' = Some (JArr conv_messages)"
    and "enh (generator st) conv_messages = Inr (JArr (JArr inner # rest), g')"
  shows "enhance_item enh i (JObj kvs) st =
           Inr (st\<lparr>enhanced_conversations := enhanced_conversations st @
                      [JObj (AList.update ''conversations'' (JArr inner) kvs)],
                   generator := g'\<rparr>) \<and>
         map_of (AList.update ''conversations'' (JArr inner) kvs) ''conversations'' = Some (JArr inner)"
  using assms by (simp add: enhance_item_wellformed AList.update_conv')

theorem unwrap_rule_witness:
  "map_of [(''id'', JInt 7), (''conversations'', JArr [JObj [(''from'', JStr ''human''), (''value'', JStr ''Q'')]])]
       ''conversations'' = Some (JArr [JObj [(''from'', JStr ''human''), (''value'', JStr ''Q'')]]) \<and>
   enhance_item (\<lambda>g msgs. Inr (JArr [JArr (msgs @ [JObj [(''from'', JStr ''assistant''), (''value'', JStr ''A'')]])], g))
       0 (JObj [(''id'', JInt 7), (''conversations'', JArr [JObj [(''from'', JStr ''human''), (''value'', JStr ''Q'')]])])
       \<lparr>enhanced_conversations = [], warnings = [], generator = ()\<rparr> =
     Inr \<lparr>enhanced_conversations =
            [JObj [(''id'', JInt 7),
                   (''conversations'', JArr [JObj [(''from'', JStr ''human''), (''value'', JStr ''Q'')],
                                            JObj [(''from'', JStr ''assistant''), (''value'', JStr ''A'')]])]],
          warnings = [], generator = ()\<rparr>"
  using unwrap_rule[of "[(''id'', JInt 7), (''conversations'', JArr [JObj [(''from'', JStr ''human''), (''value'', JStr ''Q'')]])]"
      "[JObj [(''from'', JStr ''human''), (''value'', JStr ''Q'')]]"
      "\<lambda>g msgs. Inr (JArr [JArr (msgs @ [JObj [(''from'', JStr ''assistant''), (''value'', JStr ''A'')]])], g)"
      "\<lparr>enhanced_conversations = [], warnings = [], generator = ()\<rparr>"
      "[JObj [(''from'', JStr ''human''), (''value'', JStr ''Q'')], JObj [(''from'', JStr ''assistant''), (''value'', JStr ''A'')]]"
      "[]" "()" 0]
  by simp

subsection \<open>Malformed items\<close>

text \<open>
  C4. If the strategy does not raise on the message lists of the batch, the loop returns
  as many items as it was given; an item whose \<^verbatim>\<open>conversations\<close> field is not a list
  comes out unchanged at its position and its index is among the warnings; an item whose
  \<^verbatim>\<open>conversations\<close> field is a list comes out with that field replaced by what the
  strategy returned for it (unwrapped where nested).
\<close>

theorem malformed_item_resilience:
  assumes ok: "\<forall>c\<in>set cs. \<forall>kvs msgs g. c = JObj kvs \<longrightarrow>
                 map_of kvs ''conversations'' = Some (JArr msgs) \<longrightarrow> (\<exists>r. enh g msgs = Inr r)"
  shows "\<exists>st'. enhance_conversations enh cs g = Inr st' \<and>
           length (enhanced_conversations st') = length cs \<and>
           (\<forall>j<length cs. \<forall>kvs v. cs ! j = JObj kvs \<longrightarrow>
                map_of kvs ''conversations'' = Some v \<longrightarrow> \<not> isinstance_list v \<longrightarrow>
                enhanced_conversations st' ! j = cs ! j \<and> j \<in> set (warnings st')) \<and>
           (\<forall>j<length cs. \<forall>kvs msgs. cs ! j = JObj kvs \<longrightarrow>
                map_of kvs ''conversations'' = Some (JArr msgs) \<longrightarrow>
                (\<exists>g1 em g2. enh g1 msgs = Inr (em, g2) \<and>
                   enhanced_conversations st' ! j =
                     JObj (AList.update ''conversations'' (unwrap_nested em) kvs)))"
proof -
  let ?st0 = "\<lparr>enhanced_conversations = [], warnings = [], generator = g\<rparr>"
  obtain st' where st': "enhance_loop enh 0 cs ?st0 = Inr st'"
  proof (cases "enhance_loop enh 0 cs ?st0")
    case (Inl e)
    from enhance_loop_Inl[OF this] obtain c kvs msgs g' where
      c: "c \<in> set cs" "c = JObj kvs" "map_of kvs ''conversations'' = Some (JArr msgs)"
         "enh g' msgs = Inl e"
      by blast
    from ok c(1-3) have "\<exists>r. enh g' msgs = Inr r" by blast
    with c(4) show ?thesis by simp
  qed
  from enhance_loop_Inr[OF st'] obtain out ws where
    o: "enhanced_conversations st' = out" "warnings st' = ws" "length out = length cs" and
    items: "\<forall>j<length cs. \<exists>g w g'.
              enhance_item enh (0 + j) (cs ! j)
                \<lparr>enhanced_conversations = [], warnings = [], generator = g\<rparr>
              = Inr \<lparr>enhanced_conversations = [out ! j], warnings = w, generator = g'\<rparr> \<and>
              set w \<subseteq> set ws"
    by auto
  have mal: "out ! j = cs ! j \<and> j \<in> set ws"
    if "j < length cs" "cs ! j = JObj kvs" "map_of kvs ''conversations'' = Some v"
       "\<not> isinstance_list v" for j kvs v
  proof -
    from items that(1) obtain g1 w g2 where
      e: "enhance_item enh (0 + j) (cs ! j)
                \<lparr>enhanced_conversations = [], warnings = [], generator = g1\<rparr>
              = Inr \<lparr>enhanced_conversations = [out ! j], warnings = w, generator = g2\<rparr>" and
      w: "set w \<subseteq> set ws" by blast
    from e that(2-4) have "out ! j = cs ! j" "w = [j]"
      by (simp_all add: enhance_item_malformed)
    with w show ?thesis by simp
  qed
  have good: "\<exists>g1 em g2. enh g1 msgs = Inr (em, g2) \<and>
                 out ! j = JObj (AList.update ''conversations'' (unwrap_nested em) kvs)"
    if "j < length cs" "cs ! j = JObj kvs" "map_of kvs ''conversations'' = Some (JArr msgs)"
    for j kvs msgs
  proof -
    from items that(1) obtain g1 w g2 where
      e: "enhance_item enh (0 + j) (cs ! j)
                \<lparr>enhanced_conversations = [], warnings = [], generator = g1\<rparr>
              = Inr \<lparr>enhanced_conversations = [out ! j], warnings = w, generator = g2\<rparr>"
      by blast
    show ?thesis
    proof (cases "enh g1 msgs")
      case (Inl e')
      with e that(2,3) show ?thesis by (simp add: enhance_item_wellformed)
    next
      case (Inr r)
      obtain em g3 where r: "r = (em, g3)" by (cases r)
      from e that(2,3) Inr r
      have "out ! j = JObj (AList.update ''conversations'' (unwrap_nested em) kvs)"
        by (simp add: enhance_item_wellformed)
      with Inr r show ?thesis by blast
    qed
  qed
  have "enhance_conversations enh cs g = Inr st'"
    using st' by (simp add: enhance_conversations_def)
  moreover have "length (enhanced_conversations st') = length cs"
    using o by simp
  moreover note mal[unfolded o(1,2)[symmetric]] good[unfolded o(1)[symmetric]]
  ultimately show ?thesis by blast
qed

theorem malformed_item_resilience_witness:
  "\<exists>st'. enhance_conversations (\<lambda>g msgs. Inr (JArr (msgs @ [JStr ''A'']), g))
       [JObj [(''conversations'', JArr [JStr ''Q0''])],
        JObj [(''conversations'', JStr ''oops'')],
        JObj [(''conversations'', JArr [JStr ''Q2''])]] () = Inr st' \<and>
     length (enhanced_conversations st') = 3 \<and>
     enhanced_conversations st' ! 1 = JObj [(''conversations'', JStr ''oops'')] \<and>
     1 \<in> set (warnings st')"
proof -
  let ?enh = "\<lambda>(g::unit) msgs. Inr (JArr (msgs @ [JStr ''A'']), g) :: error + json \<times> unit"
  let ?cs = "[JObj [(''conversations'', JArr [JStr ''Q0''])],
        JObj [(''conversations'', JStr ''oops'')],
        JObj [(''conversations'', JArr [JStr ''Q2''])]]"
  have h: "\<forall>c\<in>set ?cs. \<forall>kvs msgs g. c = JObj kvs \<longrightarrow>
                 map_of kvs ''conversations'' = Some (JArr msgs) \<longrightarrow> (\<exists>r. ?enh g msgs = Inr r)"
    by simp
  from malformed_item_resilience[OF h, of "()"] obtain st' where
    s: "enhance_conversations ?enh ?cs () = Inr st'"
       "length (enhanced_conversations st') = length ?cs"
       "\<forall>j<length ?cs. \<forall>kvs v. ?cs ! j = JObj kvs \<longrightarrow>
                map_of kvs ''conversations'' = Some v \<longrightarrow> \<not> isinstance_list v \<longrightarrow>
                enhanced_conversations st' ! j = ?cs ! j \<and> j \<in> set (warnings st')"
    by blast
  from s(3) have "enhanced_conversations st' ! 1 = ?cs ! 1 \<and> 1 \<in> set (warnings st')"
    by simp
  with s(1,2) show ?thesis by (intro exI[of _ st']) simp
qed

subsection \<open>Frame property\<close>

text \<open>
  C5. An iteration that enhances a conversation object appends an object with the same
  keys in the same order, in which every entry under a key other than
  \<^verbatim>\<open>conversations\<close> is the original entry, and the \<^verbatim>\<open>conversations\<close> field holds the
  strategy's (possibly unwrapped) result.
\<close>

theorem enhancement_frame:
  assumes "map_of kvs ''conversations'' = Some (JArr conv_messages)"
    and "enhance_item enh i (JObj kvs) st = Inr st'"
  shows "\<exists>kvs' enhanced_messages.
           enh (generator st) conv_messages = Inr (enhanced_messages, generator st') \<and>
           enhanced_conversations st' = enhanced_conversations st @ [JObj kvs'] \<and>
           map fst kvs' = map fst kvs \<and>
           (\<forall>n<length kvs. fst (kvs ! n) \<noteq> ''conversations'' \<longrightarrow> kvs' ! n = kvs ! n) \<and>
           (\<forall>k. k \<noteq> ''conversations'' \<longrightarrow> map_of kvs' k = map_of kvs k) \<and>
           map_of kvs' ''conversations'' = Some (unwrap_nested enhanced_messages)"
proof -
  from assms obtain em g' where
    e: "enh (generator st) conv_messages = Inr (em, g')" and
    s: "st' = st\<lparr>enhanced_conversations := enhanced_conversations st @
                      [JObj (AList.update ''conversations'' (unwrap_nested em) kvs)],
                 generator := g'\<rparr>"
    by (auto simp: enhance_item_wellformed split: sum.splits prod.splits)
  let ?kvs' = "AList.update ''conversations'' (unwrap_nested em) kvs"
  have "map fst ?kvs' = map fst kvs"
    using assms(1) by (rule update_present_keys)
  moreover have "\<forall>n<length kvs. fst (kvs ! n) \<noteq> ''conversations'' \<longrightarrow> ?kvs' ! n = kvs ! n"
    by (simp add: update_nth_other)
  moreover have "\<forall>k. k \<noteq> ''conversations'' \<longrightarrow> map_of ?kvs' k = map_of kvs k"
    by (simp add: AList.update_conv')
  moreover have "map_of ?kvs' ''conversations'' = Some (unwrap_nested em)"
    by (simp add: AList.update_conv')
  ultimately show ?thesis using e s by auto
qed

theorem enhancement_frame_witness:
  "\<exists>kvs'. enhance_item (\<lambda>g msgs. Inr (JArr (msgs @ [JStr ''A'']), g)) 0
       (JObj [(''id'', JInt 7), (''conversations'', JArr [JStr ''Q'']), (''source'', JStr ''faq'')])
       \<lparr>enhanced_conversations = [], warnings = [], generator = ()\<rparr> =
     Inr \<lparr>enhanced_conversations = [JObj kvs'], warnings = [], generator = ()\<rparr> \<and>
     map fst kvs' = [''id'', ''conversations'', ''source''] \<and>
     map_of kvs' ''id'' = Some (JInt 7) \<and> map_of kvs' ''source'' = Some (JStr ''faq'') \<and>
     map_of kvs' ''conversations'' = Some (JArr [JStr ''Q'', JStr ''A''])"
proof -
  let ?enh = "\<lambda>(g::unit) msgs. Inr (JArr (msgs @ [JStr ''A'']), g) :: error + json \<times> unit"
  let ?kvs = "[(''id'', JInt 7), (''conversations'', JArr [JStr ''Q'']), (''source'', JStr ''faq'')]"
  let ?st = "\<lparr>enhanced_conversations = [], warnings = [], generator = ()\<rparr>"
  let ?st' = "\<lparr>enhanced_conversations =
                  [JObj [(''id'', JInt 7), (''conversations'', JArr [JStr ''Q'', JStr ''A'']),
                         (''source'', JStr ''faq'')]],
                warnings = [], generator = ()\<rparr>"
  have h1: "map_of ?kvs ''conversations'' = Some (JArr [JStr ''Q''])" by simp
  have h2: "enhance_item ?enh 0 (JObj ?kvs) ?st = Inr ?st'"
    by (simp add: enhance_item_def)
  from enhancement_frame[OF h1 h2] obtain kvs' where
    "enhanced_conversations ?st' = enhanced_conversations ?st @ [JObj kvs']"
    by blast
  then have "kvs' = [(''id'', JInt 7), (''conversations'', JArr [JStr ''Q'', JStr ''A'']),
                     (''source'', JStr ''faq'')]"
    by simp
  with h2 show ?thesis by (intro exI[of _ kvs']) simp
qed

section \<open>Properties of parser selection and ingestion\<close>

lemma prefix_substring_in: "prefix sub s \<Longrightarrow> substring_in sub s"
  by (cases s) auto

lemma substring_in_Cons: "substring_in sub cs \<Longrightarrow> substring_in sub (c # cs)"
  by simp

lemma video_id_search_None:
  assumes "\<not> substring_in ''v='' s" and "\<not> substring_in ''.be/'' s"
  shows "video_id_search s = None"
  using assms
proof (induction s)
  case Nil
  then show ?case by simp
next
  case (Cons c cs)
  from Cons.prems have "\<not> prefix ''v='' (c # cs)" "\<not> prefix ''.be/'' (c # cs)"
    by (auto simp del: prefix_Cons)
  then have "video_id_match_here (c # cs) = None"
    by (simp only: video_id_match_here_def if_False)
  moreover from Cons have "video_id_search cs = None" by simp
  ultimately show ?case by simp
qed

subsection \<open>The \<^verbatim>\<open>.pdf\<close> extension\<close>

text \<open>
  C9. For every path or URL whose lowercased extension is \<^verbatim>\<open>.pdf\<close>, with
  \<^verbatim>\<open>multimodal\<close> false, \<^verbatim>\<open>determine_parser\<close> returns the PDF parser whatever the
  environment, and makes no HEAD request and no existence check: a local \<^verbatim>\<open>.pdf\<close> path
  that does not exist yields the PDF parser, not \<^verbatim>\<open>FileNotFoundError\<close>.
\<close>

theorem pdf_extension_unconditional:
  assumes "lower (snd (splitext file_path)) = ''.pdf''"
  shows "determine_parser env file_path False = (Inr PDFParser, [])"
  using assms by (simp add: determine_parser_def)

theorem pdf_extension_unconditional_witness:
  "lower (snd (splitext ''reports/missing.PDF'')) = ''.pdf'' \<and>
   \<not> path_exists offline_env ''reports/missing.PDF'' \<and>
   determine_parser offline_env ''reports/missing.PDF'' False = (Inr PDFParser, [])"
proof -
  have h: "lower (snd (splitext ''reports/missing.PDF'')) = ''.pdf''"
    by (simp add: splitext_def rfind_def lower_def lower_char_def)
  from pdf_extension_unconditional[OF h, of offline_env] h show ?thesis
    by (simp add: offline_env_def)
qed

subsection \<open>YouTube URLs\<close>

text \<open>
  C7, as amended. For every string that starts with \<^verbatim>\<open>http://\<close> or \<^verbatim>\<open>https://\<close>,
  contains \<^verbatim>\<open>youtube.com\<close> or \<^verbatim>\<open>youtu.be\<close> and whose lowercased extension is not
  \<^verbatim>\<open>.pdf\<close>, with \<^verbatim>\<open>multimodal\<close> false, \<^verbatim>\<open>determine_parser\<close> returns the YouTube
  parser whatever the environment, without a HEAD request or an existence check.
\<close>

theorem youtube_url_parser:
  assumes "prefix ''http://'' file_path \<or> prefix ''https://'' file_path"
    and "substring_in ''youtube.com'' file_path \<or> substring_in ''youtu.be'' file_path"
    and "lower (snd (splitext file_path)) \<noteq> ''.pdf''"
  shows "determine_parser env file_path False = (Inr YouTubeParser, [])"
  using assms by (auto simp: determine_parser_def)

theorem youtube_url_parser_witness:
  "(prefix ''http://'' ''https://www.youtube.com/watch?v=abc'' \<or>
      prefix ''https://'' ''https://www.youtube.com/watch?v=abc'') \<and>
   (substring_in ''youtube.com'' ''https://www.youtube.com/watch?v=abc'' \<or>
      substring_in ''youtu.be'' ''https://www.youtube.com/watch?v=abc'') \<and>
   lower (snd (splitext ''https://www.youtube.com/watch?v=abc'')) \<noteq> ''.pdf'' \<and>
   determine_parser offline_env ''https://www.youtube.com/watch?v=abc'' False = (Inr YouTubeParser, [])"
proof -
  have h1: "prefix ''http://'' ''https://www.youtube.com/watch?v=abc'' \<or>
      prefix ''https://'' ''https://www.youtube.com/watch?v=abc''" by simp
  have h2: "substring_in ''youtube.com'' ''https://www.youtube.com/watch?v=abc'' \<or>
      substring_in ''youtu.be'' ''https://www.youtube.com/watch?v=abc''" by simp
  have h3: "lower (snd (splitext ''https://www.youtube.com/watch?v=abc'')) \<noteq> ''.pdf''"
    by (simp add: splitext_def rfind_def lower_def lower_char_def)
  from youtube_url_parser[OF h1 h2 h3, of offline_env] h1 h2 h3 show ?thesis by blast
qed

text \<open>
  The claim as stated, for every URL string containing \<^verbatim>\<open>youtube.com\<close> or
  \<^verbatim>\<open>youtu.be\<close>, fails in two ways. The extension test of line 53 comes first, so a
  YouTube URL ending in \<^verbatim>\<open>.pdf\<close> gets the PDF parser. And line 57 recognises a URL by a
  lower-case scheme prefix only, so a URL written with the scheme \<^verbatim>\<open>HTTPS\<close> is treated as
  a local path.
\<close>

theorem youtube_url_parser_counterexample:
  "substring_in ''youtu.be'' ''https://youtu.be/clip.pdf'' \<and>
   determine_parser offline_env ''https://youtu.be/clip.pdf'' False = (Inr PDFParser, []) \<and>
   substring_in ''youtube.com'' ''HTTPS://www.youtube.com/watch?v=abc'' \<and>
   determine_parser offline_env ''HTTPS://www.youtube.com/watch?v=abc'' False =
     (Inl (FileNotFoundError ''File not found: HTTPS://www.youtube.com/watch?v=abc''),
      [ExistsCheck ''HTTPS://www.youtube.com/watch?v=abc''])"
  by (simp add: determine_parser_def splitext_def rfind_def lower_def lower_char_def offline_env_def)

subsection \<open>Output names of YouTube URLs\<close>

text \<open>
  C10. For a URL (\<^verbatim>\<open>http://\<close> or \<^verbatim>\<open>https://\<close>) that contains \<^verbatim>\<open>youtube.com\<close> or
  \<^verbatim>\<open>youtu.be\<close> but neither \<^verbatim>\<open>v=\<close> nor \<^verbatim>\<open>.be/\<close>, the name derivation of lines 119
  to 132 ends in an \<^verbatim>\<open>AttributeError\<close>; and when the output directory is in place, a
  parser is selected and parsing succeeds, \<^verbatim>\<open>process_file\<close> without an
  \<^verbatim>\<open>output_name\<close> raises that \<^verbatim>\<open>AttributeError\<close>.
\<close>

theorem youtube_name_without_video_id:
  assumes url: "prefix ''http://'' file_path \<or> prefix ''https://'' file_path"
    and yt: "substring_in ''youtube.com'' file_path \<or> substring_in ''youtu.be'' file_path"
    and no_id: "\<not> substring_in ''v='' file_path" "\<not> substring_in ''.be/'' file_path"
    and dir: "path_exists env dir \<or> makedirs env dir = None"
    and parser: "fst (determine_parser env file_path multimodal) = Inr p"
    and parsed: "parse env p file_path = Inr content"
    and name: "output_name = None \<or> output_name = Some []"
  shows "derive_output_name env file_path = Inl AttributeError \<and>
         ingest_process_file env file_path (Some dir) output_name multimodal = Inl AttributeError"
proof -
  have search: "video_id_search file_path = None"
    using no_id by (rule video_id_search_None)
  have derive: "derive_output_name env file_path = Inl AttributeError"
    using url yt search by (auto simp: derive_output_name_def)
  have "(if path_exists env dir then None else makedirs env dir) = None"
    using dir by auto
  with parser parsed name derive
  have "ingest_process_file env file_path (Some dir) output_name multimodal = Inl AttributeError"
    by (auto simp: ingest_process_file_def)
  with derive show ?thesis by simp
qed

theorem youtube_name_without_video_id_witness:
  "substring_in ''youtube.com'' ''https://www.youtube.com/@channel'' \<and>
   \<not> substring_in ''v='' ''https://www.youtube.com/@channel'' \<and>
   \<not> substring_in ''.be/'' ''https://www.youtube.com/@channel'' \<and>
   fst (determine_parser offline_env ''https://www.youtube.com/@channel'' False) = Inr YouTubeParser \<and>
   derive_output_name offline_env ''https://www.youtube.com/@channel'' = Inl AttributeError \<and>
   ingest_process_file offline_env ''https://www.youtube.com/@channel'' (Some ''out'') None False
     = Inl AttributeError"
proof -
  let ?u = "''https://www.youtube.com/@channel''"
  have h1: "prefix ''http://'' ?u \<or> prefix ''https://'' ?u" by simp
  have h2: "substring_in ''youtube.com'' ?u \<or> substring_in ''youtu.be'' ?u" by simp
  have h3: "\<not> substring_in ''v='' ?u" by simp
  have h4: "\<not> substring_in ''.be/'' ?u" by simp
  have h5: "path_exists offline_env ''out'' \<or> makedirs offline_env ''out'' = None"
    by (simp add: offline_env_def)
  have h6: "fst (determine_parser offline_env ?u False) = Inr YouTubeParser"
    by (simp add: determine_parser_def splitext_def rfind_def lower_def lower_char_def)
  have h7: "parse offline_env YouTubeParser ?u = Inr ()"
    by (simp add: offline_env_def)
  have h8: "(None :: string option) = None \<or> (None :: string option) = Some []" by simp
  from youtube_name_without_video_id[OF h1 h2 h3 h4 h5 h6 h7 h8] h2 h3 h4 h6
  show ?thesis by simp
qed

section \<open>Properties of conversation normalisation\<close>

subsection \<open>The \<^verbatim>\<open>qa_pairs\<close> shape\<close>

lemma normalize_qa_pairs:
  assumes "map_of kvs ''qa_pairs'' = Some qa_pairs"
  shows "normalize convert verbose (JObj kvs) =
           (case (if verbose then py_len qa_pairs else Inr 0) of
              Inl e \<Rightarrow> Inl e
            | Inr n \<Rightarrow>
                (case convert qa_pairs of
                   Inl e \<Rightarrow> Inl e
                 | Inr conv_list \<Rightarrow> Inr (JArr (map wrap_conversation conv_list), False)))"
  using assms by (simp add: normalize_def contains_key_map_of del: contains_key.simps)

lemma map_of_filter_other_key:
  "k \<noteq> k' \<Longrightarrow> map_of (filter (\<lambda>kv. fst kv \<noteq> k') kvs) k = map_of kvs k"
  by (induction kvs) auto

lemma convert_pairs_Inr:
  assumes "convert_pairs pairs = Inr convs"
  shows "length convs = length pairs \<and>
         (\<forall>i<length pairs. qa_pair_to_conversation (pairs ! i) = Inr (convs ! i))"
  using assms
proof (induction pairs arbitrary: convs)
  case Nil
  then show ?case by simp
next
  case (Cons p ps)
  from Cons.prems obtain c cs where
    c: "qa_pair_to_conversation p = Inr c" "convert_pairs ps = Inr cs" "convs = c # cs"
    by (auto split: sum.splits)
  from Cons.IH[OF c(2)] have
    ih: "length cs = length ps" "\<forall>i<length ps. qa_pair_to_conversation (ps ! i) = Inr (cs ! i)"
    by simp_all
  have "qa_pair_to_conversation ((p # ps) ! i) = Inr ((c # cs) ! i)" if "i < length (p # ps)" for i
    using that c(1) ih(2) by (cases i) simp_all
  with ih(1) c(3) show ?case by simp
qed

lemma convert_pairs_total:
  assumes "\<forall>p\<in>set pairs. \<exists>c. qa_pair_to_conversation p = Inr c"
  shows "\<exists>convs. convert_pairs pairs = Inr convs"
  using assms by (induction pairs) auto

lemma qa_pair_to_conversation_wellformed:
  assumes "map_of kv ''question'' = Some q" and "map_of kv ''answer'' = Some a"
  shows "qa_pair_to_conversation (JObj kv) = Inr (JArr [message ''human'' q, message ''assistant'' a])"
  using assms by simp

text \<open>
  C1. For every object with the key \<^verbatim>\<open>qa_pairs\<close>, whatever the conversion function: the
  normaliser's result is the same as for the object without its \<^verbatim>\<open>conversations\<close>
  entry, and a result that is not an exception has the single-conversation flag false.
  With the conversion function of the specification, a \<^verbatim>\<open>qa_pairs\<close> list of objects
  that each carry a question and an answer gives one wrapped conversation per pair, in
  order: the human question followed by the assistant answer.
\<close>

theorem qa_pairs_priority:
  assumes "contains_key ''qa_pairs'' (JObj kvs)"
  shows "normalize convert verbose (JObj kvs) =
           normalize convert verbose (JObj (filter (\<lambda>kv. fst kv \<noteq> ''conversations'') kvs)) \<and>
         (\<forall>r. normalize convert verbose (JObj kvs) = Inr r \<longrightarrow> \<not> snd r) \<and>
         (\<forall>pairs. map_of kvs ''qa_pairs'' = Some (JArr pairs) \<longrightarrow>
            (\<forall>p\<in>set pairs. \<exists>kv q a. p = JObj kv \<and> map_of kv ''question'' = Some q \<and>
                                     map_of kv ''answer'' = Some a) \<longrightarrow>
            (\<exists>convs. normalize convert_to_conversation_format verbose (JObj kvs) =
                        Inr (JArr convs, False) \<and>
                      length convs = length pairs \<and>
                      (\<forall>i<length pairs. \<forall>kv q a. pairs ! i = JObj kv \<longrightarrow>
                         map_of kv ''question'' = Some q \<longrightarrow> map_of kv ''answer'' = Some a \<longrightarrow>
                         convs ! i =
                           wrap_conversation (JArr [message ''human'' q, message ''assistant'' a]))))"
proof -
  from assms obtain qa_pairs where qa: "map_of kvs ''qa_pairs'' = Some qa_pairs"
    by (auto simp: contains_key_map_of simp del: contains_key.simps)
  let ?kvs' = "filter (\<lambda>kv. fst kv \<noteq> ''conversations'') kvs"
  have "map_of ?kvs' ''qa_pairs'' = Some qa_pairs"
    using qa by (simp add: map_of_filter_other_key)
  then have indep: "normalize convert verbose (JObj kvs) = normalize convert verbose (JObj ?kvs')"
    using qa by (simp add: normalize_qa_pairs)
  have flag: "\<not> snd r" if "normalize convert verbose (JObj kvs) = Inr r" for r
    using that qa by (auto simp: normalize_qa_pairs split: sum.splits if_splits)
  have pairs: "\<exists>convs. normalize convert_to_conversation_format verbose (JObj kvs) =
                        Inr (JArr convs, False) \<and>
                      length convs = length pairs \<and>
                      (\<forall>i<length pairs. \<forall>kv q a. pairs ! i = JObj kv \<longrightarrow>
                         map_of kv ''question'' = Some q \<longrightarrow> map_of kv ''answer'' = Some a \<longrightarrow>
                         convs ! i =
                           wrap_conversation (JArr [message ''human'' q, message ''assistant'' a]))"
    if p: "map_of kvs ''qa_pairs'' = Some (JArr pairs)"
      and wf: "\<forall>p\<in>set pairs. \<exists>kv q a. p = JObj kv \<and> map_of kv ''question'' = Some q \<and>
                                     map_of kv ''answer'' = Some a"
    for pairs
  proof -
    from wf have "\<forall>p\<in>set pairs. \<exists>c. qa_pair_to_conversation p = Inr c"
      by (metis qa_pair_to_conversation_wellformed)
    from convert_pairs_total[OF this] obtain cs where cs: "convert_pairs pairs = Inr cs"
      by blast
    from convert_pairs_Inr[OF cs] have
      len: "length cs = length pairs" and
      nth: "\<forall>i<length pairs. qa_pair_to_conversation (pairs ! i) = Inr (cs ! i)"
      by simp_all
    have norm: "normalize convert_to_conversation_format verbose (JObj kvs) =
            Inr (JArr (map wrap_conversation cs), False)"
      using p cs by (simp add: normalize_qa_pairs convert_to_conversation_format_def)
    have "map wrap_conversation cs ! i =
            wrap_conversation (JArr [message ''human'' q, message ''assistant'' a])"
      if "i < length pairs" "pairs ! i = JObj kv" "map_of kv ''question'' = Some q"
         "map_of kv ''answer'' = Some a" for i kv q a
    proof -
      from nth that(1) have "qa_pair_to_conversation (pairs ! i) = Inr (cs ! i)" by blast
      then have "qa_pair_to_conversation (JObj kv) = Inr (cs ! i)"
        unfolding that(2) .
      with that(3,4) have "cs ! i = JArr [message ''human'' q, message ''assistant'' a]" by simp
      with that(1) len show ?thesis by simp
    qed
    with norm len show ?thesis
      by (intro exI[of _ "map wrap_conversation cs"]) simp
  qed
  from indep flag pairs show ?thesis by blast
qed

theorem qa_pairs_priority_witness:
  "contains_key ''qa_pairs''
     (JObj [(''conversations'', JArr [JStr ''ignored'']),
            (''qa_pairs'', JArr [JObj [(''question'', JStr ''Q''), (''answer'', JStr ''A'')]])]) \<and>
   normalize convert_to_conversation_format False
     (JObj [(''conversations'', JArr [JStr ''ignored'']),
            (''qa_pairs'', JArr [JObj [(''question'', JStr ''Q''), (''answer'', JStr ''A'')]])]) =
   Inr (JArr [JObj [(''conversations'',
                     JArr [JObj [(''from'', JStr ''human''), (''value'', JStr ''Q'')],
                           JObj [(''from'', JStr ''assistant''), (''value'', JStr ''A'')]])]],
        False)"
proof -
  let ?pairs = "[JObj [(''question'', JStr ''Q''), (''answer'', JStr ''A'')]]"
  let ?kvs = "[(''conversations'', JArr [JStr ''ignored'']), (''qa_pairs'', JArr ?pairs)]"
  have h: "contains_key ''qa_pairs'' (JObj ?kvs)" by simp
  have p: "map_of ?kvs ''qa_pairs'' = Some (JArr ?pairs)" by simp
  have wf: "\<forall>p\<in>set ?pairs. \<exists>kv q a. p = JObj kv \<and> map_of kv ''question'' = Some q \<and>
                                     map_of kv ''answer'' = Some a"
    by simp
  from qa_pairs_priority[OF h, of convert_to_conversation_format False] p wf
  obtain convs where
    c: "normalize convert_to_conversation_format False (JObj ?kvs) = Inr (JArr convs, False)"
       "length convs = length ?pairs"
       "\<forall>i<length ?pairs. \<forall>kv q a. ?pairs ! i = JObj kv \<longrightarrow>
                         map_of kv ''question'' = Some q \<longrightarrow> map_of kv ''answer'' = Some a \<longrightarrow>
                         convs ! i =
                           wrap_conversation (JArr [message ''human'' q, message ''assistant'' a])"
    by blast
  from c(3) have "convs ! 0 = wrap_conversation (JArr [message ''human'' (JStr ''Q''),
                                                      message ''assistant'' (JStr ''A'')])"
    by simp
  moreover from c(2) have "length convs = 1" by simp
  ultimately have "convs = [wrap_conversation (JArr [message ''human'' (JStr ''Q''),
                                                      message ''assistant'' (JStr ''A'')])]"
    by (cases convs) simp_all
  with c(1) h show ?thesis by (simp add: wrap_conversation_def message_def)
qed

subsection \<open>Truncation\<close>





subsection \<open>Single conversations and lists\<close>

lemma enhance_item_dict:
  assumes "enhance_item enh i c \<lparr>enhanced_conversations = [], warnings = [], generator = g\<rparr>
             = Inr \<lparr>enhanced_conversations = [x], warnings = w, generator = g'\<rparr>"
    and "isinstance_dict c"
  shows "isinstance_dict x"
proof (cases c rule: enhance_item_cases)
  case other
  with assms show ?thesis by (simp add: enhance_item_other)
next
  case (malformed kvs v)
  with assms show ?thesis by (simp add: enhance_item_malformed)
next
  case (wellformed kvs msgs)
  with assms show ?thesis
    by (auto simp: enhance_item_wellformed split: sum.splits prod.splits)
qed

lemma enhance_conversations_shape:
  assumes "enhance_conversations enh cs g = Inr st"
  shows "length (enhanced_conversations st) = length cs \<and>
         (\<forall>j<length cs. isinstance_dict (cs ! j) \<longrightarrow> isinstance_dict (enhanced_conversations st ! j))"
proof -
  from assms have "enhance_loop enh 0 cs \<lparr>enhanced_conversations = [], warnings = [], generator = g\<rparr>
                     = Inr st"
    by (simp add: enhance_conversations_def)
  from enhance_loop_Inr[OF this] obtain out ws where
    o: "enhanced_conversations st = out" "length out = length cs" and
    items: "\<forall>j<length cs. \<exists>g w g'.
              enhance_item enh (0 + j) (cs ! j)
                \<lparr>enhanced_conversations = [], warnings = [], generator = g\<rparr>
              = Inr \<lparr>enhanced_conversations = [out ! j], warnings = w, generator = g'\<rparr> \<and>
              set w \<subseteq> set ws"
    by auto
  have "isinstance_dict (out ! j)" if "j < length cs" "isinstance_dict (cs ! j)" for j
  proof -
    from items that(1) obtain g1 w g2 where
      "enhance_item enh (0 + j) (cs ! j)
                \<lparr>enhanced_conversations = [], warnings = [], generator = g1\<rparr>
              = Inr \<lparr>enhanced_conversations = [out ! j], warnings = w, generator = g2\<rparr>"
      by blast
    from enhance_item_dict[OF this that(2)] show ?thesis .
  qed
  with o show ?thesis by simp
qed

lemma normalize_single_object:
  assumes "isinstance_dict data" "contains_key ''conversations'' data"
    "\<not> contains_key ''qa_pairs'' data"
  shows "normalize convert verbose data = Inr (JArr [data], True)"
  using assms by (simp add: normalize_def)

lemma normalize_conversation_list:
  assumes "list_all (\<lambda>c. isinstance_dict c \<and> contains_key ''conversations'' c) items"
  shows "normalize convert verbose (JArr items) = Inr (JArr items, False)"
proof -
  from assms have "list_all (contains_key ''conversations'') (filter isinstance_dict items)"
    by (induction items) auto
  then show ?thesis by (simp add: normalize_def)
qed

lemma limit_conversations_list:
  "limit_conversations max_examples verbose (JArr cs) =
     Inr (JArr (case max_examples of
                  None \<Rightarrow> cs
                | Some m \<Rightarrow> if int (length cs) > m then slice_to m cs else cs))"
  by (simp add: limit_conversations_def split: option.splits)

lemma enhance_data_Inr:
  assumes "enhance_data convert enh max_examples verbose data g = Inr (out, st)"
  obtains conversations single limited items where
    "normalize convert verbose data = Inr (conversations, single)"
    "limit_conversations max_examples verbose conversations = Inr limited"
    "py_iter limited = Inr items"
    "enhance_conversations enh items g = Inr st"
    "out = output_value single (enhanced_conversations st)"
  using assms by (auto simp: enhance_data_def split: sum.splits prod.splits)

text \<open>
  C2, as amended. Whenever the enhancement of a document returns, the value written is
  the one enhanced item exactly when the flag set by the normaliser is true and exactly
  one item was produced, and the list of all items otherwise. A bare object with the key
  \<^verbatim>\<open>conversations\<close> and without the key \<^verbatim>\<open>qa_pairs\<close>, under no limit or a limit of at
  least one, is written as a bare object. A list of objects that each have the key
  \<^verbatim>\<open>conversations\<close> is written as a list of objects, one for each input object kept
  by the limit.
\<close>

theorem singleton_round_trip:
  assumes run: "enhance_data convert enh max_examples verbose data g = Inr (out, st)"
  shows "(\<exists>conversations single.
            normalize convert verbose data = Inr (conversations, single) \<and>
            out = (if single \<and> length (enhanced_conversations st) = 1
                   then enhanced_conversations st ! 0
                   else JArr (enhanced_conversations st))) \<and>
         (isinstance_dict data \<and> contains_key ''conversations'' data \<and>
            \<not> contains_key ''qa_pairs'' data \<and> (\<forall>m. max_examples = Some m \<longrightarrow> 1 \<le> m)
          \<longrightarrow> isinstance_dict out \<and> enhanced_conversations st = [out]) \<and>
         (\<forall>items. data = JArr items \<and>
            list_all (\<lambda>c. isinstance_dict c \<and> contains_key ''conversations'' c) items
          \<longrightarrow> out = JArr (enhanced_conversations st) \<and>
              list_all isinstance_dict (enhanced_conversations st) \<and>
              length (enhanced_conversations st) =
                (case max_examples of
                   None \<Rightarrow> length items
                 | Some m \<Rightarrow> if int (length items) > m then length (slice_to m items)
                             else length items))"
proof -
  from run obtain conversations single limited its where
    n: "normalize convert verbose data = Inr (conversations, single)" and
    l: "limit_conversations max_examples verbose conversations = Inr limited" and
    i: "py_iter limited = Inr its" and
    e: "enhance_conversations enh its g = Inr st" and
    out: "out = output_value single (enhanced_conversations st)"
    by (rule enhance_data_Inr)
  from enhance_conversations_shape[OF e] have
    len: "length (enhanced_conversations st) = length its" and
    dicts: "\<forall>j<length its. isinstance_dict (its ! j) \<longrightarrow>
              isinstance_dict (enhanced_conversations st ! j)"
    by simp_all
  have general: "\<exists>conversations single.
            normalize convert verbose data = Inr (conversations, single) \<and>
            out = (if single \<and> length (enhanced_conversations st) = 1
                   then enhanced_conversations st ! 0
                   else JArr (enhanced_conversations st))"
    using n out by (simp add: output_value_def)
  have single_case: "isinstance_dict out \<and> enhanced_conversations st = [out]"
    if d: "isinstance_dict data" "contains_key ''conversations'' data"
          "\<not> contains_key ''qa_pairs'' data"
      and m: "\<forall>m. max_examples = Some m \<longrightarrow> 1 \<le> m"
  proof -
    from d n have c: "conversations = JArr [data]" "single"
      by (simp_all add: normalize_single_object)
    from m have "(case max_examples of
                  None \<Rightarrow> [data]
                | Some m \<Rightarrow> if int (length [data]) > m then slice_to m [data] else [data]) = [data]"
      by (cases max_examples) auto
    with l c(1) have "limited = JArr [data]"
      by (simp add: limit_conversations_list)
    with i have its: "its = [data]" by simp
    with len obtain x where x: "enhanced_conversations st = [x]"
      by (cases "enhanced_conversations st") auto
    from dicts its d(1) x have "isinstance_dict x" by simp
    moreover from out c(2) x have "out = x" by (simp add: output_value_def)
    ultimately show ?thesis using x by simp
  qed
  have list_case: "out = JArr (enhanced_conversations st) \<and>
              list_all isinstance_dict (enhanced_conversations st) \<and>
              length (enhanced_conversations st) =
                (case max_examples of
                   None \<Rightarrow> length items
                 | Some m \<Rightarrow> if int (length items) > m then length (slice_to m items)
                             else length items)"
    if d: "data = JArr items"
      and all: "list_all (\<lambda>c. isinstance_dict c \<and> contains_key ''conversations'' c) items"
    for items
  proof -
    from normalize_conversation_list[OF all] n d
    have c: "conversations = JArr items" "\<not> single" by simp_all
    let ?kept = "case max_examples of
                  None \<Rightarrow> items
                | Some m \<Rightarrow> if int (length items) > m then slice_to m items else items"
    from l c(1) have "limited = JArr ?kept" by (simp add: limit_conversations_list)
    with i have its: "its = ?kept" by simp
    have "set ?kept \<subseteq> set items"
      by (auto simp: slice_to_def split: option.splits dest: in_set_takeD)
    with all have "\<forall>c\<in>set its. isinstance_dict c"
      unfolding its by (auto simp: list_all_iff)
    with dicts len have "list_all isinstance_dict (enhanced_conversations st)"
      by (simp add: list_all_length)
    moreover from out c(2) have "out = JArr (enhanced_conversations st)"
      by (simp add: output_value_def)
    moreover from len its have "length (enhanced_conversations st) =
                (case max_examples of
                   None \<Rightarrow> length items
                 | Some m \<Rightarrow> if int (length items) > m then length (slice_to m items)
                             else length items)"
      by (simp split: option.splits)
    ultimately show ?thesis by simp
  qed
  from general single_case list_case show ?thesis by blast
qed

theorem singleton_round_trip_witness:
  "enhance_data convert_to_conversation_format (\<lambda>g msgs. Inr (JArr (msgs @ [JStr ''A'']), g))
     None False (JObj [(''id'', JInt 7), (''conversations'', JArr [JStr ''Q''])]) () =
     Inr (JObj [(''id'', JInt 7), (''conversations'', JArr [JStr ''Q'', JStr ''A''])],
          \<lparr>enhanced_conversations =
              [JObj [(''id'', JInt 7), (''conversations'', JArr [JStr ''Q'', JStr ''A''])]],
            warnings = [], generator = ()\<rparr>) \<and>
   isinstance_dict (JObj [(''id'', JInt 7), (''conversations'', JArr [JStr ''Q'', JStr ''A''])]) \<and>
   enhance_data convert_to_conversation_format (\<lambda>g msgs. Inr (JArr (msgs @ [JStr ''A'']), g))
     None False
     (JArr [JObj [(''conversations'', JArr [JStr ''Q1''])],
            JObj [(''conversations'', JArr [JStr ''Q2''])]]) () =
     Inr (JArr [JObj [(''conversations'', JArr [JStr ''Q1'', JStr ''A''])],
                JObj [(''conversations'', JArr [JStr ''Q2'', JStr ''A''])]],
          \<lparr>enhanced_conversations =
              [JObj [(''conversations'', JArr [JStr ''Q1'', JStr ''A''])],
               JObj [(''conversations'', JArr [JStr ''Q2'', JStr ''A''])]],
            warnings = [], generator = ()\<rparr>) \<and>
   length [JObj [(''conversations'', JArr [JStr ''Q1'', JStr ''A''])],
           JObj [(''conversations'', JArr [JStr ''Q2'', JStr ''A''])]] = 2"
proof -
  let ?enh = "\<lambda>(g::unit) msgs. Inr (JArr (msgs @ [JStr ''A'']), g) :: error + json \<times> unit"
  let ?one = "JObj [(''id'', JInt 7), (''conversations'', JArr [JStr ''Q''])]"
  let ?one' = "JObj [(''id'', JInt 7), (''conversations'', JArr [JStr ''Q'', JStr ''A''])]"
  let ?st1 = "\<lparr>enhanced_conversations = [?one'], warnings = [], generator = ()\<rparr>"
  let ?two = "[JObj [(''conversations'', JArr [JStr ''Q1''])],
               JObj [(''conversations'', JArr [JStr ''Q2''])]]"
  let ?two' = "[JObj [(''conversations'', JArr [JStr ''Q1'', JStr ''A''])],
                JObj [(''conversations'', JArr [JStr ''Q2'', JStr ''A''])]]"
  let ?st2 = "\<lparr>enhanced_conversations = ?two', warnings = [], generator = ()\<rparr>"
  have run1: "enhance_data convert_to_conversation_format ?enh None False ?one () = Inr (?one', ?st1)"
    by (simp add: enhance_data_def normalize_def limit_conversations_def
        enhance_conversations_def enhance_item_def output_value_def)
  have run2: "enhance_data convert_to_conversation_format ?enh None False (JArr ?two) () =
                Inr (JArr ?two', ?st2)"
    by (simp add: enhance_data_def normalize_def limit_conversations_def
        enhance_conversations_def enhance_item_def output_value_def)
  have pre1: "isinstance_dict ?one \<and> contains_key ''conversations'' ?one \<and>
            \<not> contains_key ''qa_pairs'' ?one \<and> (\<forall>m. (None :: int option) = Some m \<longrightarrow> 1 \<le> m)"
    by simp
  have pre2: "JArr ?two = JArr ?two \<and>
            list_all (\<lambda>c. isinstance_dict c \<and> contains_key ''conversations'' c) ?two"
    by simp
  from singleton_round_trip[OF run1] pre1
  have "isinstance_dict ?one' \<and> enhanced_conversations ?st1 = [?one']" by blast
  moreover from singleton_round_trip[OF run2] pre2
  have "length (enhanced_conversations ?st2) =
          (case (None :: int option) of
             None \<Rightarrow> length ?two
           | Some m \<Rightarrow> if int (length ?two) > m then length (slice_to m ?two) else length ?two)"
    by blast
  ultimately show ?thesis using run1 run2 by simp
qed

text \<open>
  The claim as stated fails. With a limit of zero the single conversation is cut away
  before the loop, and although the flag is true the value written is the empty list;
  line 303 tests the flag together with the number of items. An object that has the key
  \<^verbatim>\<open>qa_pairs\<close> beside \<^verbatim>\<open>conversations\<close> is classified by \<^verbatim>\<open>qa_pairs\<close> and written as a
  list.
\<close>

theorem singleton_round_trip_counterexample:
  "normalize convert_to_conversation_format False (JObj [(''conversations'', JArr [JStr ''Q''])]) =
     Inr (JArr [JObj [(''conversations'', JArr [JStr ''Q''])]], True) \<and>
   create_process_file (example_create_env (JObj [(''conversations'', JArr [JStr ''Q''])]) False)
       ''data/in.json'' ''out'' ''cot-enhance'' (Some 0) False False =
     (Inr ''out/in_enhanced.json'', [(''out/in_enhanced.json'', Complete (JArr []))], []) \<and>
   create_process_file
       (example_create_env (JObj [(''qa_pairs'', JArr []), (''conversations'', JArr [JStr ''Q''])])
          False)
       ''data/in.json'' ''out'' ''cot-enhance'' None False False =
     (Inr ''out/in_enhanced.json'', [(''out/in_enhanced.json'', Complete (JArr []))], [])"
  by (simp add: create_process_file_def example_create_env_def load_documents_def
      basename_def splitext_def rfind_def join_def resolve_max_examples_def
      except_json_decode_error_def cot_enhance_try_def enhance_data_def normalize_def
      limit_conversations_def slice_to_def enhance_conversations_def output_value_def
      write_json_def convert_to_conversation_format_def Let_def suffix_to_prefix)

section \<open>Properties of content generation\<close>

lemma write_json_fails_iff:
  "write_json env p v = (Some e, files) \<longleftrightarrow>
     (open_error env p = Some e \<and> files = []) \<or>
     (open_error env p = None \<and> dump_error env p v = Some e \<and> files = [(p, Partial)])"
  by (auto simp: write_json_def split: option.splits)

lemma write_json_succeeds_iff:
  "write_json env p v = (None, files) \<longleftrightarrow>
     open_error env p = None \<and> dump_error env p v = None \<and> files = [(p, Complete v)]"
  by (auto simp: write_json_def split: option.splits)

text \<open>
  C8. Suppose the output directory and the client are in place and the documents are
  loaded. A write fails either in \<^verbatim>\<open>open\<close>, touching no file, or in the dump, leaving a
  partial file. In the \<^verbatim>\<open>qa\<close> path, once the generator has returned its result, a failed
  write is reported by the message of line 115, which carries the error, and
  \<^verbatim>\<open>process_file\<close> still returns the output path; a successful write leaves the
  generator's result in the file and is reported by the message of line 113; and an
  exception of the generator itself is raised, not swallowed. In the \<^verbatim>\<open>summary\<close>,
  \<^verbatim>\<open>cot\<close> and \<^verbatim>\<open>cot-enhance\<close> paths, once the result has been produced, a failed
  write is raised to the caller and nothing is printed about it; in the \<^verbatim>\<open>cot-enhance\<close>
  path the handler of line 315 would turn a \<^verbatim>\<open>JSONDecodeError\<close> into a \<^verbatim>\<open>ValueError\<close>
  on the way.
\<close>

theorem write_failure_policy:
  assumes "make_output_dir env output_dir = None"
    and "llm_client env = None"
    and "load_documents env file_path = Inr documents"
    and "base_name = fst (splitext (basename file_path))"
    and "qa_path = join output_dir (base_name @ ''_qa_pairs.json'')"
    and "qa_result = qa_process_documents env documents
              (case num_pairs of
                 Some n \<Rightarrow> Some n
               | None \<Rightarrow> (case generation_config env ''num_pairs'' of
                            None \<Rightarrow> Some 25
                          | Some v \<Rightarrow> v))
              verbose rolling_summary"
  shows "(\<forall>p v e files. write_json env p v = (Some e, files) \<longleftrightarrow>
            (open_error env p = Some e \<and> files = []) \<or>
            (open_error env p = None \<and> dump_error env p v = Some e \<and>
               files = [(p, Partial)])) \<and>
         (\<forall>result e files.
            qa_result = Inr result \<and> write_json env qa_path result = (Some e, files)
          \<longrightarrow> create_process_file env file_path output_dir ''qa'' num_pairs verbose rolling_summary
                = (Inr qa_path, files, [SavingResult qa_path, ErrorWritingResult e])) \<and>
         (\<forall>result files.
            qa_result = Inr result \<and> write_json env qa_path result = (None, files)
          \<longrightarrow> files = [(qa_path, Complete result)] \<and>
              create_process_file env file_path output_dir ''qa'' num_pairs verbose rolling_summary
                = (Inr qa_path, files, [SavingResult qa_path, SuccessfullyWrote qa_path])) \<and>
         (\<forall>e. qa_result = Inl e
          \<longrightarrow> create_process_file env file_path output_dir ''qa'' num_pairs verbose rolling_summary
                = (Inl e, [], [])) \<and>
         (\<forall>summary e files.
            generate_summary env (join_space (map doc_text documents)) = Inr summary \<and>
            write_json env (join output_dir (base_name @ ''_summary.json''))
              (JObj [(''summary'', summary)]) = (Some e, files)
          \<longrightarrow> create_process_file env file_path output_dir ''summary'' num_pairs verbose
                  rolling_summary
                = (Inl e, files, [])) \<and>
         (\<forall>result e files.
            cot_process_document env (join_space (map doc_text documents))
              (case num_pairs of
                 Some n \<Rightarrow> Some n
               | None \<Rightarrow> (case generation_config env ''num_cot_examples'' of
                            None \<Rightarrow> Some 5
                          | Some v \<Rightarrow> v))
              verbose = Inr result \<and>
            write_json env (join output_dir (base_name @ ''_cot_examples.json'')) result
              = (Some e, files)
          \<longrightarrow> create_process_file env file_path output_dir ''cot'' num_pairs verbose rolling_summary
                = (Inl e, files, [])) \<and>
         (\<forall>g document_text data out st e files.
            cot_generator env = Inr g \<and> read_text env file_path = Inr document_text \<and>
            json_load env file_path = Inr data \<and>
            enhance_data (convert_qa_pairs env) (enhance_with_cot env)
              (resolve_max_examples num_pairs (generation_config env)) verbose data g
              = Inr (out, st) \<and>
            write_json env (join output_dir (base_name @ ''_enhanced.json'')) out
              = (Some e, files)
          \<longrightarrow> create_process_file env file_path output_dir ''cot-enhance'' num_pairs verbose
                  rolling_summary
                = (Inl (if e = JSONDecodeError
                        then ValueError (''Failed to parse '' @ file_path @
                               '' as JSON. For cot-enhance, input must be a valid JSON file.'')
                        else e),
                   files, []))"
proof -
  note pre = assms(1-4) assms(5)[symmetric] assms(6)[symmetric]
  have qa_fail: "create_process_file env file_path output_dir ''qa'' num_pairs verbose
                   rolling_summary
                = (Inr qa_path, files, [SavingResult qa_path, ErrorWritingResult e])"
    if "qa_result = Inr result" "write_json env qa_path result = (Some e, files)"
    for result e files
    using pre that by (simp add: create_process_file_def Let_def)
  have qa_ok: "files = [(qa_path, Complete result)] \<and>
              create_process_file env file_path output_dir ''qa'' num_pairs verbose rolling_summary
                = (Inr qa_path, files, [SavingResult qa_path, SuccessfullyWrote qa_path])"
    if "qa_result = Inr result" "write_json env qa_path result = (None, files)"
    for result files
  proof -
    from that(2) have "files = [(qa_path, Complete result)]"
      by (simp add: write_json_succeeds_iff)
    moreover from pre that
    have "create_process_file env file_path output_dir ''qa'' num_pairs verbose rolling_summary
            = (Inr qa_path, files, [SavingResult qa_path, SuccessfullyWrote qa_path])"
      by (simp add: create_process_file_def Let_def)
    ultimately show ?thesis by simp
  qed
  have qa_raise: "create_process_file env file_path output_dir ''qa'' num_pairs verbose
                    rolling_summary = (Inl e, [], [])"
    if "qa_result = Inl e" for e
    using pre that by (simp add: create_process_file_def Let_def)
  have summary: "create_process_file env file_path output_dir ''summary'' num_pairs verbose
                  rolling_summary = (Inl e, files, [])"
    if "generate_summary env (join_space (map doc_text documents)) = Inr summary"
       "write_json env (join output_dir (base_name @ ''_summary.json''))
              (JObj [(''summary'', summary)]) = (Some e, files)"
    for summary e files
    using pre that by (simp add: create_process_file_def Let_def)
  have cot: "create_process_file env file_path output_dir ''cot'' num_pairs verbose rolling_summary
                = (Inl e, files, [])"
    if "cot_process_document env (join_space (map doc_text documents))
              (case num_pairs of
                 Some n \<Rightarrow> Some n
               | None \<Rightarrow> (case generation_config env ''num_cot_examples'' of
                            None \<Rightarrow> Some 5
                          | Some v \<Rightarrow> v))
              verbose = Inr result"
       "write_json env (join output_dir (base_name @ ''_cot_examples.json'')) result
              = (Some e, files)"
    for result e files
    using pre that by (simp add: create_process_file_def Let_def)
  have enhance: "create_process_file env file_path output_dir ''cot-enhance'' num_pairs verbose
                  rolling_summary
                = (Inl (if e = JSONDecodeError
                        then ValueError (''Failed to parse '' @ file_path @
                               '' as JSON. For cot-enhance, input must be a valid JSON file.'')
                        else e),
                   files, [])"
    if "cot_generator env = Inr g" "read_text env file_path = Inr document_text"
       "json_load env file_path = Inr data"
       "enhance_data (convert_qa_pairs env) (enhance_with_cot env)
              (resolve_max_examples num_pairs (generation_config env)) verbose data g
              = Inr (out, st)"
       "write_json env (join output_dir (base_name @ ''_enhanced.json'')) out = (Some e, files)"
    for g document_text data out st e files
    using pre that
    by (cases e)
       (simp_all add: create_process_file_def Let_def cot_enhance_try_def
          except_json_decode_error_def)
  show ?thesis
  proof (intro conjI)
    show "\<forall>p v e files. write_json env p v = (Some e, files) \<longleftrightarrow>
            (open_error env p = Some e \<and> files = []) \<or>
            (open_error env p = None \<and> dump_error env p v = Some e \<and>
               files = [(p, Partial)])"
      by (simp add: write_json_fails_iff)
  qed (use qa_fail qa_ok qa_raise summary cot enhance in blast)+
qed


theorem write_failure_policy_witness:
  "create_process_file (example_create_env (JArr []) True) ''docs/notes.txt'' ''out'' ''qa''
       None False False =
     (Inr ''out/notes_qa_pairs.json'', [],
      [SavingResult ''out/notes_qa_pairs.json'', ErrorWritingResult OSError]) \<and>
   create_process_file (example_create_env (JArr []) True) ''docs/notes.txt'' ''out'' ''summary''
       None False False = (Inl OSError, [], []) \<and>
   create_process_file (example_create_env (JArr []) True) ''docs/notes.txt'' ''out'' ''cot''
       None False False = (Inl OSError, [], []) \<and>
   create_process_file (example_create_env (JArr []) True) ''docs/notes.txt'' ''out''
       ''cot-enhance'' None False False = (Inl OSError, [], []) \<and>
   create_process_file
       ((example_create_env (JArr []) False)\<lparr>dump_error := (\<lambda>p v. Some OSError)\<rparr>)
       ''docs/notes.txt'' ''out'' ''qa'' None False False =
     (Inr ''out/notes_qa_pairs.json'', [(''out/notes_qa_pairs.json'', Partial)],
      [SavingResult ''out/notes_qa_pairs.json'', ErrorWritingResult OSError]) \<and>
   create_process_file (example_create_env (JArr []) False) ''docs/notes.txt'' ''out'' ''qa''
       None False False =
     (Inr ''out/notes_qa_pairs.json'',
      [(''out/notes_qa_pairs.json'', Complete (JObj [(''qa_pairs'', JArr [])]))],
      [SavingResult ''out/notes_qa_pairs.json'', SuccessfullyWrote ''out/notes_qa_pairs.json''])"
proof -
  let ?full = "example_create_env (JArr []) True"
  let ?dump = "(example_create_env (JArr []) False)\<lparr>dump_error := (\<lambda>p v. Some OSError)\<rparr>"
  let ?fine = "example_create_env (JArr []) False"
  let ?docs = "[\<lparr>doc_text = ''document text'', doc_image = None\<rparr>]"
  let ?qa = "JObj [(''qa_pairs'', JArr [])]"
  let ?path = "join ''out'' (''notes'' @ ''_qa_pairs.json'')"
  have path: "?path = ''out/notes_qa_pairs.json''"
    by (simp add: join_def suffix_to_prefix)
  have base: "''notes'' = fst (splitext (basename ''docs/notes.txt''))"
    by (simp add: basename_def splitext_def rfind_def)

  have f1: "make_output_dir ?full ''out'' = None" by (simp add: example_create_env_def)
  have f2: "llm_client ?full = None" by (simp add: example_create_env_def)
  have f3: "load_documents ?full ''docs/notes.txt'' = Inr ?docs"
    by (simp add: example_create_env_def load_documents_def suffix_to_prefix)
  note full = write_failure_policy[OF f1 f2 f3 base refl refl, where num_pairs = None
      and verbose = False and rolling_summary = False]
  have full_qa: "qa_process_documents ?full ?docs
              (case (None :: int option) of
                 Some n \<Rightarrow> Some n
               | None \<Rightarrow> (case generation_config ?full ''num_pairs'' of
                            None \<Rightarrow> Some 25
                          | Some v \<Rightarrow> v))
              False False = Inr ?qa"
    by (simp add: example_create_env_def)
  have full_write: "write_json ?full p v = (Some OSError, [])" for p v
    by (simp add: example_create_env_def write_json_def)
  have full_summary:
    "generate_summary ?full (join_space (map doc_text ?docs)) = Inr (JStr ''a summary'')"
    by (simp add: example_create_env_def)
  have full_cot: "cot_process_document ?full (join_space (map doc_text ?docs))
              (case (None :: int option) of
                 Some n \<Rightarrow> Some n
               | None \<Rightarrow> (case generation_config ?full ''num_cot_examples'' of
                            None \<Rightarrow> Some 5
                          | Some v \<Rightarrow> v))
              False = Inr (JObj [(''cot_examples'', JArr [])])"
    by (simp add: example_create_env_def)
  have full_enhance: "cot_generator ?full = Inr ()"
    "read_text ?full ''docs/notes.txt'' = Inr ''document text''"
    "json_load ?full ''docs/notes.txt'' = Inr (JArr [])"
    "enhance_data (convert_qa_pairs ?full) (enhance_with_cot ?full)
       (resolve_max_examples None (generation_config ?full)) False (JArr []) ()
     = Inr (JArr [], \<lparr>enhanced_conversations = [], warnings = [], generator = ()\<rparr>)"
    by (simp_all add: example_create_env_def enhance_data_def normalize_def
        resolve_max_examples_def limit_conversations_def enhance_conversations_def
        output_value_def)
  from full[THEN conjunct2, THEN conjunct1, rule_format, OF conjI[OF full_qa full_write]]
  have r1: "create_process_file ?full ''docs/notes.txt'' ''out'' ''qa'' None False False
          = (Inr ?path, [], [SavingResult ?path, ErrorWritingResult OSError])"
    by simp
  from full[THEN conjunct2, THEN conjunct2, THEN conjunct2, THEN conjunct2, THEN conjunct1,
      rule_format, OF conjI[OF full_summary full_write]]
  have r2: "create_process_file ?full ''docs/notes.txt'' ''out'' ''summary'' None False False
          = (Inl OSError, [], [])"
    by simp
  from full[THEN conjunct2, THEN conjunct2, THEN conjunct2, THEN conjunct2, THEN conjunct2,
      THEN conjunct1, rule_format, OF conjI[OF full_cot full_write]]
  have r3: "create_process_file ?full ''docs/notes.txt'' ''out'' ''cot'' None False False
          = (Inl OSError, [], [])"
    by simp
  from full[THEN conjunct2, THEN conjunct2, THEN conjunct2, THEN conjunct2, THEN conjunct2,
      THEN conjunct2, rule_format,
      OF conjI[OF full_enhance(1) conjI[OF full_enhance(2) conjI[OF full_enhance(3)
           conjI[OF full_enhance(4) full_write]]]]]
  have "create_process_file ?full ''docs/notes.txt'' ''out'' ''cot-enhance'' None False False
          = (Inl (if OSError = JSONDecodeError
                  then ValueError (''Failed to parse '' @ ''docs/notes.txt'' @
                         '' as JSON. For cot-enhance, input must be a valid JSON file.'')
                  else OSError), [], [])"
    by simp
  then have r4: "create_process_file ?full ''docs/notes.txt'' ''out'' ''cot-enhance'' None False
                   False = (Inl OSError, [], [])"
    by simp

  have d1: "make_output_dir ?dump ''out'' = None" by (simp add: example_create_env_def)
  have d2: "llm_client ?dump = None" by (simp add: example_create_env_def)
  have d3: "load_documents ?dump ''docs/notes.txt'' = Inr ?docs"
    by (simp add: example_create_env_def load_documents_def suffix_to_prefix)
  note dump = write_failure_policy[OF d1 d2 d3 base refl refl, where num_pairs = None
      and verbose = False and rolling_summary = False]
  have dump_qa: "qa_process_documents ?dump ?docs
              (case (None :: int option) of
                 Some n \<Rightarrow> Some n
               | None \<Rightarrow> (case generation_config ?dump ''num_pairs'' of
                            None \<Rightarrow> Some 25
                          | Some v \<Rightarrow> v))
              False False = Inr ?qa"
    by (simp add: example_create_env_def)
  have dump_write: "write_json ?dump ?path ?qa = (Some OSError, [(?path, Partial)])"
    by (simp add: example_create_env_def write_json_def)
  from dump[THEN conjunct2, THEN conjunct1, rule_format, OF conjI[OF dump_qa dump_write]]
  have r5: "create_process_file ?dump ''docs/notes.txt'' ''out'' ''qa'' None False False
          = (Inr ?path, [(?path, Partial)], [SavingResult ?path, ErrorWritingResult OSError])"
    by simp

  have g1: "make_output_dir ?fine ''out'' = None" by (simp add: example_create_env_def)
  have g2: "llm_client ?fine = None" by (simp add: example_create_env_def)
  have g3: "load_documents ?fine ''docs/notes.txt'' = Inr ?docs"
    by (simp add: example_create_env_def load_documents_def suffix_to_prefix)
  note fine = write_failure_policy[OF g1 g2 g3 base refl refl, where num_pairs = None
      and verbose = False and rolling_summary = False]
  have fine_qa: "qa_process_documents ?fine ?docs
              (case (None :: int option) of
                 Some n \<Rightarrow> Some n
               | None \<Rightarrow> (case generation_config ?fine ''num_pairs'' of
                            None \<Rightarrow> Some 25
                          | Some v \<Rightarrow> v))
              False False = Inr ?qa"
    by (simp add: example_create_env_def)
  have fine_write: "write_json ?fine ?path ?qa = (None, [(?path, Complete ?qa)])"
    by (simp add: example_create_env_def write_json_def)
  from fine[THEN conjunct2, THEN conjunct2, THEN conjunct1, rule_format,
      OF conjI[OF fine_qa fine_write]]
  have r6: "create_process_file ?fine ''docs/notes.txt'' ''out'' ''qa'' None False False
          = (Inr ?path, [(?path, Complete ?qa)], [SavingResult ?path, SuccessfullyWrote ?path])"
    by simp

  from r1 r2 r3 r4 r5 r6 show ?thesis
    unfolding path by (intro conjI)
qed

end
